theory Spec2Isabelle
  imports Complex_Main "HOL-Library.Sublist" "HOL-Library.Log_Nat"
begin

section \<open>Reshaper: the JavaScript values the toolkit works on\<close>

text \<open>
  The toolkit (\<^verbatim>\<open>src/Resource.js\<close>) is a class of static helpers over plain JavaScript
  data. Records and arrays are reference values: they live in a store, and a value only
  names a cell of it. The model keeps that store explicit, so that "a new record" is a
  fresh cell and "does not mutate its input" is a statement about the old cells.

  What the model leaves to the host (the record \<open>host\<close> below) or leaves out:
  \<^item> caller-supplied functions are opaque: a value \<open>Fun f\<close> names one, and the host says
    what calling it with a given receiver (its \<^verbatim>\<open>this\<close>) and given arguments does to the
    store and what it returns or throws; every call returns;
  \<^item> a read \<^verbatim>\<open>v[k]\<close> that finds no own property goes on to the prototype chain: the
    records and arrays of the store are plain ones, whose prototypes are
    \<^verbatim>\<open>Object.prototype\<close> and \<^verbatim>\<open>Array.prototype\<close>, and the host says which members
    (\<^verbatim>\<open>constructor\<close>, \<^verbatim>\<open>toString\<close>, ...) each built-in prototype provides; the
    built-in prototypes stay as they are during a call. Records made with another
    prototype, own getters, proxies, symbols and sparse arrays are outside the model; an
    array has its elements and its length as own properties, and a function has no
    enumerable property;
  \<^item> a loop over an array visits the elements the array holds when the loop starts;
  \<^item> a number is an IEEE 754 double: a finite one is the rational it denotes (the
    rationals that are no double denote no number of JavaScript), \<^verbatim>\<open>-0\<close> is a number
    of its own, and the division rounds its quotient to the nearest double;
  \<^item> the conversions of strings and objects to numbers, and of non-string values to
    property keys, are functions of the host.
\<close>

type_synonym addr = nat
type_synonym fid = nat

text \<open>\<open>Fin 0\<close> is the double \<^verbatim>\<open>+0\<close>, \<open>NegZero\<close> the double \<^verbatim>\<open>-0\<close>.\<close>

datatype jsnum = Fin rat | NegZero | NaN | PosInf | NegInf

datatype jsval =
    Undefined
  | Null
  | Bool bool
  | Num jsnum
  | Str string
  | Ref addr
  | Fun fid

text \<open>
  A record keeps its entries in the order \<^verbatim>\<open>Object.entries\<close> lists them; an array is its
  list of elements.
\<close>

type_synonym props = "(string \<times> jsval) list"

datatype hobj = HObj props | HArr "jsval list"

type_synonym heap = "hobj list"

text \<open>
  What a call can throw: the engine's \<^verbatim>\<open>TypeError\<close>, an \<^verbatim>\<open>Error\<close> with its message
  (the toolkit throws one), or whatever a caller-supplied function throws.
\<close>

datatype error = TypeError | Error string | Thrown jsval

type_synonym 'a res = "(error + 'a) \<times> heap"

text \<open>
  A class that extends \<^verbatim>\<open>Resource\<close> has a name and may override the static
  \<^verbatim>\<open>transform\<close> with a function of its own; it inherits every other method. A function
  is called on a receiver, its \<^verbatim>\<open>this\<close>: a class of the toolkit when the call is
  \<^verbatim>\<open>this.transform(...)\<close> inside one of its methods, none when the call is \<^verbatim>\<open>f(...)\<close>.
\<close>

datatype resource_class = Resource_class string "fid option"

datatype receiver = No_this | Class_this resource_class

text \<open>The built-in prototypes that the values of the model inherit from.\<close>

datatype prototype =
    Object_prototype
  | Array_prototype
  | String_prototype
  | Number_prototype
  | Boolean_prototype

text \<open>
  The host: \<open>call_fn\<close> runs a caller-supplied function on a receiver and arguments;
  \<open>fn_prop f k\<close> is what reading \<^verbatim>\<open>f[k]\<close> on a function gives; \<open>inherited p k\<close> is
  what a lookup of \<open>k\<close> that starts at the built-in prototype \<open>p\<close> finds
  (\<^verbatim>\<open>undefined\<close> when the chain has no such member); \<open>to_str\<close> and \<open>to_num\<close> are
  the conversions of a value that is not a string to a property key and of a value that is
  not a primitive number to a number.
\<close>

record host =
  call_fn :: "fid \<Rightarrow> receiver \<Rightarrow> jsval list \<Rightarrow> heap \<Rightarrow> (error + jsval) \<times> heap"
  fn_prop :: "fid \<Rightarrow> string \<Rightarrow> jsval"
  inherited :: "prototype \<Rightarrow> string \<Rightarrow> jsval"
  to_str :: "heap \<Rightarrow> jsval \<Rightarrow> string"
  to_num :: "heap \<Rightarrow> jsval \<Rightarrow> jsnum"

subsection \<open>The store\<close>

text \<open>
  A reference of a real execution always names an allocated cell; a dangling one reads as
  an empty record.
\<close>

definition cell :: "heap \<Rightarrow> addr \<Rightarrow> hobj" where
  "cell h a = (if a < length h then h ! a else HObj [])"

definition alloc :: "hobj \<Rightarrow> heap \<Rightarrow> jsval res" where
  "alloc ob h = (Inr (Ref (length h)), h @ [ob])"

text \<open>A parameter default \<^verbatim>\<open>x = {}\<close>: an omitted (undefined) argument becomes a new empty record.\<close>

definition default_obj :: "jsval \<Rightarrow> heap \<Rightarrow> jsval \<times> heap" where
  "default_obj v h = (if v = Undefined then (Ref (length h), h @ [HObj []]) else (v, h))"

subsection \<open>Truthiness, \<^verbatim>\<open>typeof\<close>, \<^verbatim>\<open>Array.isArray\<close>\<close>

fun truthy :: "jsval \<Rightarrow> bool" where
  "truthy Undefined = False"
| "truthy Null = False"
| "truthy (Bool b) = b"
| "truthy (Num n) = (n \<noteq> Fin 0 \<and> n \<noteq> NegZero \<and> n \<noteq> NaN)"
| "truthy (Str s) = (s \<noteq> [])"
| "truthy (Ref a) = True"
| "truthy (Fun f) = True"

fun typeof :: "jsval \<Rightarrow> string" where
  "typeof Undefined = ''undefined''"
| "typeof Null = ''object''"
| "typeof (Bool b) = ''boolean''"
| "typeof (Num n) = ''number''"
| "typeof (Str s) = ''string''"
| "typeof (Ref a) = ''object''"
| "typeof (Fun f) = ''function''"

fun isArray :: "heap \<Rightarrow> jsval \<Rightarrow> bool" where
  "isArray h (Ref a) = (case cell h a of HArr xs \<Rightarrow> True | HObj ps \<Rightarrow> False)"
| "isArray h v = False"

fun elements :: "heap \<Rightarrow> jsval \<Rightarrow> jsval list" where
  "elements h (Ref a) = (case cell h a of HArr xs \<Rightarrow> xs | HObj ps \<Rightarrow> [])"
| "elements h v = []"

subsection \<open>Property keys\<close>

text \<open>
  A key that is the canonical decimal form of a number below \<open>2^32 - 1\<close> is an array
  index. Index keys are listed first, in ascending numeric order, before the other keys,
  which come in the order they were created.
\<close>

definition is_digit :: "char \<Rightarrow> bool" where
  "is_digit c = (48 \<le> (of_char c :: nat) \<and> (of_char c :: nat) \<le> 57)"

definition nat_of_digits :: "string \<Rightarrow> nat" where
  "nat_of_digits s = foldl (\<lambda>n c. 10 * n + (of_char c - 48)) 0 s"

definition index_of_key :: "string \<Rightarrow> nat option" where
  "index_of_key k =
     (if k \<noteq> [] \<and> list_all is_digit k \<and> (hd k \<noteq> CHR ''0'' \<or> k = ''0'')
         \<and> nat_of_digits k < 4294967295
      then Some (nat_of_digits k) else None)"

function show_nat :: "nat \<Rightarrow> string" where
  "show_nat n =
     (if n < 10 then [''0123456789'' ! n]
      else show_nat (n div 10) @ [''0123456789'' ! (n mod 10)])"
  by pat_completeness auto
termination
  by (relation "measure id") auto

declare show_nat.simps [simp del]

definition key_before :: "string \<Rightarrow> string \<Rightarrow> bool" where
  "key_before k k' =
     (case index_of_key k of
        None \<Rightarrow> False
      | Some n \<Rightarrow> (case index_of_key k' of None \<Rightarrow> True | Some m \<Rightarrow> n < m))"

text \<open>
  \<^verbatim>\<open>o[k] = v\<close> on a record: an existing key keeps its place and takes the new value, a new
  key is put where the listing order wants it.
\<close>

fun obj_set :: "string \<Rightarrow> jsval \<Rightarrow> props \<Rightarrow> props" where
  "obj_set k v [] = [(k, v)]"
| "obj_set k v ((k', v') # ps) =
     (if k = k' then (k, v) # ps
      else if key_before k k' then (k, v) # (k', v') # ps
      else (k', v') # obj_set k v ps)"

text \<open>\<^verbatim>\<open>Object.fromEntries\<close>: the entries are set one after the other on a new record.\<close>

definition fromEntries :: "props \<Rightarrow> props" where
  "fromEntries es = foldl (\<lambda>ps (k, v). obj_set k v ps) [] es"

text \<open>The order a record of the store is kept in: what \<open>obj_set\<close> builds and preserves.\<close>

definition key_lt :: "string \<Rightarrow> string \<Rightarrow> bool" where
  "key_lt k k' = (k \<noteq> k' \<and> \<not> key_before k' k)"

definition js_ordered :: "props \<Rightarrow> bool" where
  "js_ordered ps = sorted_wrt key_lt (map fst ps)"

text \<open>\<^verbatim>\<open>ToPropertyKey\<close>: a string is its own key, the host converts the rest.\<close>

definition property_key :: "host \<Rightarrow> heap \<Rightarrow> jsval \<Rightarrow> string" where
  "property_key H h v = (case v of Str s \<Rightarrow> s | _ \<Rightarrow> to_str H h v)"

subsection \<open>Reading properties\<close>

text \<open>
  The own properties of an array or of a string: its length and its elements. An own
  property is found even where it holds \<^verbatim>\<open>undefined\<close>.
\<close>

definition indexed :: "jsval list \<Rightarrow> string \<Rightarrow> jsval option" where
  "indexed xs k =
     (if k = ''length'' then Some (Num (Fin (of_nat (length xs))))
      else case index_of_key k of
             None \<Rightarrow> None
           | Some i \<Rightarrow> if i < length xs then Some (xs ! i) else None)"

text \<open>
  \<^verbatim>\<open>v[k]\<close> and \<^verbatim>\<open>v.k\<close>. Reading a property of \<^verbatim>\<open>null\<close> or \<^verbatim>\<open>undefined\<close> throws.
  Otherwise the own property is read if there is one, and the prototype chain of the
  value if there is none: a key that is neither an own property nor a member of the chain
  reads as \<^verbatim>\<open>undefined\<close>.
\<close>

fun own_or_inherited :: "host \<Rightarrow> prototype \<Rightarrow> string \<Rightarrow> jsval option \<Rightarrow> jsval" where
  "own_or_inherited H p k (Some v) = v"
| "own_or_inherited H p k None = inherited H p k"

fun get :: "host \<Rightarrow> heap \<Rightarrow> jsval \<Rightarrow> string \<Rightarrow> error + jsval" where
  "get H h Undefined k = Inl TypeError"
| "get H h Null k = Inl TypeError"
| "get H h (Bool b) k = Inr (inherited H Boolean_prototype k)"
| "get H h (Num n) k = Inr (inherited H Number_prototype k)"
| "get H h (Str s) k =
     Inr (own_or_inherited H String_prototype k (indexed (map (\<lambda>c. Str [c]) s) k))"
| "get H h (Ref a) k =
     (case cell h a of
        HObj ps \<Rightarrow> Inr (own_or_inherited H Object_prototype k (map_of ps k))
      | HArr xs \<Rightarrow> Inr (own_or_inherited H Array_prototype k (indexed xs k)))"
| "get H h (Fun f) k = Inr (fn_prop H f k)"

text \<open>
  The own enumerable entries of a value, as \<^verbatim>\<open>Object.entries\<close>, object spread and
  \<^verbatim>\<open>Object.assign\<close> list them. \<^verbatim>\<open>Object.entries\<close> throws on \<^verbatim>\<open>null\<close> and
  \<^verbatim>\<open>undefined\<close>, the other two skip them.
\<close>

definition index_entries :: "jsval list \<Rightarrow> props" where
  "index_entries xs = map (\<lambda>i. (show_nat i, xs ! i)) [0..<length xs]"

fun own_entries :: "heap \<Rightarrow> jsval \<Rightarrow> props" where
  "own_entries h (Str s) = index_entries (map (\<lambda>c. Str [c]) s)"
| "own_entries h (Ref a) = (case cell h a of HObj ps \<Rightarrow> ps | HArr xs \<Rightarrow> index_entries xs)"
| "own_entries h v = []"

definition entries :: "heap \<Rightarrow> jsval \<Rightarrow> error + props" where
  "entries h v = (if v = Undefined \<or> v = Null then Inl TypeError else Inr (own_entries h v))"

text \<open>A call \<^verbatim>\<open>v(...)\<close>: only a function can be called, and it is called on no receiver.\<close>

fun call :: "host \<Rightarrow> jsval \<Rightarrow> jsval list \<Rightarrow> heap \<Rightarrow> jsval res" where
  "call H (Fun f) args h = call_fn H f No_this args h"
| "call H v args h = (Inl TypeError, h)"

subsection \<open>Numbers\<close>

text \<open>\<^verbatim>\<open>ToNumber\<close>.\<close>

fun to_number :: "host \<Rightarrow> heap \<Rightarrow> jsval \<Rightarrow> jsnum" where
  "to_number H h Undefined = NaN"
| "to_number H h Null = Fin 0"
| "to_number H h (Bool b) = Fin (if b then 1 else 0)"
| "to_number H h (Num n) = n"
| "to_number H h v = to_num H h v"

text \<open>
  Rounding a positive rational \<open>x\<close> to a double, to nearest and ties to even;
  \<open>pow2 k\<close> is \<open>2^k\<close>, for an integer \<open>k\<close> of either sign. With
  \<open>2^e \<le> x < 2^(e+1)\<close>, the doubles around \<open>x\<close> are the multiples of
  \<open>2^(e-52)\<close>, and below \<open>2^-1022\<close> (the subnormal range) those of \<open>2^-1074\<close>;
  a result of \<open>2^1024\<close> or more is an infinity, a result of zero keeps the sign.
\<close>

definition pow2 :: "int \<Rightarrow> rat" where
  "pow2 k = (if 0 \<le> k then of_int (2 ^ nat k) else 1 / of_int (2 ^ nat (- k)))"

definition floor_log2 :: "rat \<Rightarrow> int" where
  "floor_log2 x =
     (case quotient_of x of (n, d) \<Rightarrow>
        let k = bitlen n - bitlen d in if pow2 k \<le> x then k else k - 1)"

definition round_half_even :: "rat \<Rightarrow> int" where
  "round_half_even y =
     (let f = \<lfloor>y\<rfloor>; r = y - of_int f
      in if r < 1 / 2 then f else if 1 / 2 < r then f + 1 else if even f then f else f + 1)"

definition round_double :: "bool \<Rightarrow> rat \<Rightarrow> jsnum" where
  "round_double neg x =
     (let e = max (floor_log2 x) (- 1022);
          u = pow2 (e - 52);
          r = of_int (round_half_even (x / u)) * u
      in if pow2 1024 \<le> r then (if neg then NegInf else PosInf)
         else if r = 0 then (if neg then NegZero else Fin 0)
         else Fin (if neg then - r else r))"

text \<open>
  The division \<^verbatim>\<open>x / y\<close> of two doubles. The sign of the result is negative when the
  signs of the operands differ; the magnitude is that of the exact quotient, rounded.
\<close>

fun sign_bit :: "jsnum \<Rightarrow> bool" where
  "sign_bit (Fin q) = (q < 0)"
| "sign_bit NegZero = True"
| "sign_bit NegInf = True"
| "sign_bit PosInf = False"
| "sign_bit NaN = False"

fun magnitude :: "jsnum \<Rightarrow> rat" where
  "magnitude (Fin q) = \<bar>q\<bar>"
| "magnitude x = 0"

definition is_infinity :: "jsnum \<Rightarrow> bool" where
  "is_infinity x = (x = PosInf \<or> x = NegInf)"

definition js_div :: "jsnum \<Rightarrow> jsnum \<Rightarrow> jsnum" where
  "js_div x y =
     (let neg = (sign_bit x \<noteq> sign_bit y)
      in if x = NaN \<or> y = NaN then NaN
         else if is_infinity x then (if is_infinity y then NaN else if neg then NegInf else PosInf)
         else if is_infinity y then (if neg then NegZero else Fin 0)
         else if magnitude y = 0
              then (if magnitude x = 0 then NaN else if neg then NegInf else PosInf)
         else if magnitude x = 0 then (if neg then NegZero else Fin 0)
         else round_double neg (magnitude x / magnitude y))"

text \<open>\<^verbatim>\<open>Math.ceil\<close>: a number between \<open>-1\<close> and \<open>0\<close> goes to \<^verbatim>\<open>-0\<close>.\<close>

fun js_ceil :: "jsnum \<Rightarrow> jsnum" where
  "js_ceil (Fin q) = (if - 1 < q \<and> q < 0 then NegZero else Fin (of_int \<lceil>q\<rceil>))"
| "js_ceil x = x"

subsection \<open>Sequencing\<close>

text \<open>A step that can throw, followed by the rest of the body.\<close>

definition on_value :: "error + 'a \<Rightarrow> heap \<Rightarrow> ('a \<Rightarrow> 'b res) \<Rightarrow> 'b res" where
  "on_value r h f = (case r of Inl e \<Rightarrow> (Inl e, h) | Inr v \<Rightarrow> f v)"

fun map_res :: "('a \<Rightarrow> error + 'b) \<Rightarrow> 'a list \<Rightarrow> error + 'b list" where
  "map_res f [] = Inr []"
| "map_res f (x # xs) =
     (case f x of
        Inl e \<Rightarrow> Inl e
      | Inr y \<Rightarrow> (case map_res f xs of Inl e \<Rightarrow> Inl e | Inr ys \<Rightarrow> Inr (y # ys)))"

text \<open>The values an iterable yields (\<^verbatim>\<open>new Set(fields)\<close>): arrays and strings are iterable.\<close>

fun iterate :: "heap \<Rightarrow> jsval \<Rightarrow> error + jsval list" where
  "iterate h (Str s) = Inr (map (\<lambda>c. Str [c]) s)"
| "iterate h (Ref a) = (case cell h a of HArr xs \<Rightarrow> Inr xs | HObj ps \<Rightarrow> Inl TypeError)"
| "iterate h v = Inl TypeError"

section \<open>The toolkit\<close>

text \<open>
  Each operation takes the store and returns its result, or what it throws, with the
  store it leaves. A method that reads \<^verbatim>\<open>this\<close> takes what it reads there as its first
  argument: \<^verbatim>\<open>this.name\<close> for \<open>transform\<close>, \<^verbatim>\<open>this.transform\<close> for
  \<open>collection\<close> and \<open>make\<close>, \<^verbatim>\<open>this.collection\<close> for \<open>paginate\<close>.
\<close>

type_synonym js_method = "jsval \<Rightarrow> jsval \<Rightarrow> heap \<Rightarrow> jsval res"

definition transform :: "string \<Rightarrow> js_method" where
  "transform this_name resource options h =
     (case default_obj options h of (options, h) \<Rightarrow>
        (Inl (Error (this_name @ ''.transform() must be implemented. ''
                     @ ''Define a static transform method in your resource class.'')), h))"

text \<open>
  \<^verbatim>\<open>xs.map(f)\<close> for a callback that can throw: the elements are visited in order and
  the first throw ends the loop. The elements are those the array holds when the loop starts.
\<close>

fun map_calls :: "(jsval \<Rightarrow> heap \<Rightarrow> jsval res) \<Rightarrow> jsval list \<Rightarrow> heap \<Rightarrow> (jsval list) res" where
  "map_calls f [] h = (Inr [], h)"
| "map_calls f (x # xs) h =
     (case f x h of
        (Inl e, h1) \<Rightarrow> (Inl e, h1)
      | (Inr y, h1) \<Rightarrow>
          (case map_calls f xs h1 of
             (Inl e, h2) \<Rightarrow> (Inl e, h2)
           | (Inr ys, h2) \<Rightarrow> (Inr (y # ys), h2)))"

definition collection :: "js_method \<Rightarrow> js_method" where
  "collection this_transform resources options h =
     (case default_obj options h of (options, h) \<Rightarrow>
        if \<not> truthy resources \<or> \<not> isArray h resources then alloc (HArr []) h
        else case map_calls (\<lambda>resource. this_transform resource options) (elements h resources) h of
               (Inl e, h1) \<Rightarrow> (Inl e, h1)
             | (Inr ys, h1) \<Rightarrow> alloc (HArr ys) h1)"

definition make :: "js_method \<Rightarrow> js_method" where
  "make this_transform resource options h =
     (case default_obj options h of (options, h) \<Rightarrow>
        if \<not> truthy resource then (Inr Null, h)
        else this_transform resource options h)"

definition "when" :: "host \<Rightarrow> jsval \<Rightarrow> jsval \<Rightarrow> heap \<Rightarrow> jsval res" where
  "when H condition val h =
     (if \<not> truthy condition then (Inr Undefined, h)
      else if typeof val = ''function'' then call H val [] h else (Inr val, h))"

definition whenOrElse :: "host \<Rightarrow> jsval \<Rightarrow> jsval \<Rightarrow> jsval \<Rightarrow> heap \<Rightarrow> jsval res" where
  "whenOrElse H condition val defaultValue h =
     (let result = (if truthy condition then val else defaultValue)
      in if typeof result = ''function'' then call H result [] h else (Inr result, h))"

definition whenLoaded :: "host \<Rightarrow> jsval \<Rightarrow> jsval \<Rightarrow> jsval \<Rightarrow> heap \<Rightarrow> jsval res" where
  "whenLoaded H resource relation transformer h =
     (let transformer = (if transformer = Undefined then Null else transformer)
      in case get H h resource (property_key H h relation) of
           Inl e \<Rightarrow> (Inl e, h)
         | Inr v \<Rightarrow>
             if v = Undefined then (Inr Undefined, h)
             else if truthy transformer then call H transformer [v] h
             else (Inr v, h))"

definition whenNotNull :: "host \<Rightarrow> jsval \<Rightarrow> jsval \<Rightarrow> heap \<Rightarrow> jsval res" where
  "whenNotNull H val transformer h =
     (let transformer = (if transformer = Undefined then Null else transformer)
      in if val = Null \<or> val = Undefined then (Inr Undefined, h)
         else if truthy transformer then call H transformer [val] h
         else (Inr val, h))"

definition clean :: "jsval \<Rightarrow> heap \<Rightarrow> jsval res" where
  "clean obj h =
     (if \<not> truthy obj \<or> typeof obj \<noteq> ''object'' then (Inr obj, h)
      else case entries h obj of
             Inl e \<Rightarrow> (Inl e, h)
           | Inr es \<Rightarrow> alloc (HObj (fromEntries (filter (\<lambda>(_, v). v \<noteq> Undefined) es))) h)"

text \<open>
  An assignment \<^verbatim>\<open>o[k] = v\<close> to the record at address \<open>t\<close> writes to its cell, in
  place. The key \<^verbatim>\<open>__proto__\<close> is the exception: unless the record has an own
  property of that name, the assignment goes to the accessor that \<^verbatim>\<open>Object.prototype\<close>
  provides, which sets no own property (what it does to the prototype of the record is not
  kept: the toolkit reads no property of a record it has assigned to).
  \<^verbatim>\<open>Object.fromEntries\<close> and object spread define their keys, \<^verbatim>\<open>__proto__\<close> as any
  other. \<^verbatim>\<open>Object.assign(target, ...sources)\<close> on a target record at \<open>t\<close> assigns the
  own entries of each source to the target, one after the other.
\<close>

definition set_prop :: "addr \<Rightarrow> string \<Rightarrow> jsval \<Rightarrow> heap \<Rightarrow> heap" where
  "set_prop t k v h =
     (case cell h t of
        HObj ps \<Rightarrow>
          if k = ''__proto__'' \<and> map_of ps k = None then h
          else h[t := HObj (obj_set k v ps)]
      | HArr xs \<Rightarrow> h)"

definition assign :: "addr \<Rightarrow> jsval list \<Rightarrow> heap \<Rightarrow> heap" where
  "assign t sources h =
     foldl (\<lambda>h src. foldl (\<lambda>h (k, v). set_prop t k v h) h (own_entries h src)) h sources"

text \<open>
  \<open>merge\<close> ends with \<^verbatim>\<open>this.clean(...)\<close>: it is modelled for the receivers whose
  \<^verbatim>\<open>clean\<close> is the toolkit's, the base class and the classes that extend it.
\<close>

definition merge :: "jsval list \<Rightarrow> heap \<Rightarrow> jsval res" where
  "merge objects h =
     (let filtered = filter (\<lambda>obj. obj \<noteq> Undefined \<and> obj \<noteq> Null) objects;
          t = length h
      in clean (Ref t) (assign t filtered (h @ [HObj []])))"

definition wrap :: "jsval \<Rightarrow> jsval \<Rightarrow> heap \<Rightarrow> jsval res" where
  "wrap data meta h =
     (case default_obj meta h of (meta, h) \<Rightarrow>
        let response = length h; h = h @ [HObj [(''data'', data)]]
        in if truthy meta \<and> length (map fst (own_entries h meta)) > 0
           then (Inr (Ref response), set_prop response ''meta'' meta h)
           else (Inr (Ref response), h))"

text \<open>
  \<open>paginate\<close>. The destructuring \<^verbatim>\<open>const {page = 1, perPage = 15, ...transformOptions} = options\<close>
  reads the two properties, puts the default where one is undefined, and copies the other
  own entries into a new record; it throws on \<^verbatim>\<open>null\<close>. \<^verbatim>\<open>a || b\<close> is \<open>a\<close> when
  \<open>a\<close> is truthy and \<open>b\<close> otherwise, \<^verbatim>\<open>a ?? b\<close> is \<open>a\<close> unless \<open>a\<close> is
  \<^verbatim>\<open>null\<close> or \<^verbatim>\<open>undefined\<close>; in both \<open>b\<close> is only evaluated when it is needed.
\<close>

definition paginate :: "host \<Rightarrow> js_method \<Rightarrow> js_method" where
  "paginate H this_collection result options h =
     (case default_obj options h of (options, h) \<Rightarrow>
      on_value (get H h options ''page'') h (\<lambda>p.
      on_value (get H h options ''perPage'') h (\<lambda>pp.
        let page = (if p = Undefined then Num (Fin 1) else p);
            perPage = (if pp = Undefined then Num (Fin 15) else pp);
            transformOptions = Ref (length h);
            h = h @ [HObj (fromEntries (filter (\<lambda>(k, _). k \<noteq> ''page'' \<and> k \<noteq> ''perPage'')
                                               (own_entries h options)))]
        in
      on_value (get H h result ''results'') h (\<lambda>r1.
      on_value (if truthy r1 then Inr r1 else get H h result ''data'') h (\<lambda>r2.
      on_value (if truthy r2 then Inr r2 else get H h result ''rows'') h (\<lambda>r3.
        let results = (if truthy r3 then r3 else result) in
      on_value (get H h result ''total'') h (\<lambda>t1.
      on_value (if t1 \<noteq> Undefined \<and> t1 \<noteq> Null then Inr t1 else get H h result ''count'') h (\<lambda>t2.
      on_value (if t2 \<noteq> Undefined \<and> t2 \<noteq> Null then Inr t2 else get H h results ''length'') h (\<lambda>total.
        case (if isArray h results then (results, h) else (Ref (length h), h @ [HArr []])) of
          (items, h) \<Rightarrow>
        case this_collection items transformOptions h of
          (Inl e, h) \<Rightarrow> (Inl e, h)
        | (Inr data, h) \<Rightarrow>
            let last = Num (js_ceil (js_div (to_number H h total) (to_number H h perPage)));
                meta = Ref (length h);
                h = h @ [HObj [(''current_page'', page), (''per_page'', perPage), (''total'', total),
                               (''last_page'', if truthy last then last else Num (Fin 1))]]
            in alloc (HObj [(''data'', data), (''meta'', meta)]) h)))))))))"

text \<open>
  \<open>define(transformFn)\<close> returns a record of five closures over \<open>transformFn\<close>; each is
  modelled by a function of \<open>transformFn\<close>. They call \<^verbatim>\<open>transformFn(data, options)\<close>,
  on no receiver. Its \<open>paginate\<close> runs the class's \<open>paginate\<close> with a receiver whose
  \<^verbatim>\<open>collection\<close> is the defined one.
\<close>

definition define_transform :: "host \<Rightarrow> jsval \<Rightarrow> js_method" where
  "define_transform H transformFn data options h =
     (case default_obj options h of (options, h) \<Rightarrow>
        if \<not> truthy data then (Inr Null, h)
        else call H transformFn [data, options] h)"

definition define_collection :: "host \<Rightarrow> jsval \<Rightarrow> js_method" where
  "define_collection H transformFn data options h =
     (case default_obj options h of (options, h) \<Rightarrow>
        if \<not> truthy data \<or> \<not> isArray h data then alloc (HArr []) h
        else case map_calls (\<lambda>item. call H transformFn [item, options]) (elements h data) h of
               (Inl e, h1) \<Rightarrow> (Inl e, h1)
             | (Inr ys, h1) \<Rightarrow> alloc (HArr ys) h1)"

definition define_make :: "host \<Rightarrow> jsval \<Rightarrow> js_method" where
  "define_make H transformFn data options h =
     (case default_obj options h of (options, h) \<Rightarrow>
        if \<not> truthy data then (Inr Null, h)
        else call H transformFn [data, options] h)"

definition define_paginate :: "host \<Rightarrow> jsval \<Rightarrow> js_method" where
  "define_paginate H transformFn result options h =
     (case default_obj options h of (options, h) \<Rightarrow>
        paginate H (define_collection H transformFn) result options h)"

definition define_wrap :: "jsval \<Rightarrow> jsval \<Rightarrow> heap \<Rightarrow> jsval res" where
  "define_wrap = wrap"

text \<open>
  \<^verbatim>\<open>fields.reduce((acc, field) => ..., {})\<close> of \<open>pick\<close>, on the accumulator at \<open>acc\<close>.
  The parameter \<^verbatim>\<open>fields\<close> of \<open>pick\<close> and \<open>omit\<close> is written \<open>field_list\<close>.
  Only an array has a \<^verbatim>\<open>reduce\<close> method (a record that carries one of its own is outside
  the model), so on any other truthy \<^verbatim>\<open>fields\<close> the call throws, once the accumulator
  is made; \<^verbatim>\<open>new Set(fields)\<close> of \<open>omit\<close> throws on what is not iterable.
\<close>

fun pick_reduce :: "host \<Rightarrow> jsval \<Rightarrow> addr \<Rightarrow> jsval list \<Rightarrow> heap \<Rightarrow> jsval res" where
  "pick_reduce H obj acc [] h = (Inr (Ref acc), h)"
| "pick_reduce H obj acc (field # rest) h =
     on_value (get H h obj (property_key H h field)) h (\<lambda>v.
       pick_reduce H obj acc rest
         (if v \<noteq> Undefined then set_prop acc (property_key H h field) v h else h))"

definition pick :: "host \<Rightarrow> jsval \<Rightarrow> jsval \<Rightarrow> heap \<Rightarrow> jsval res" where
  "pick H obj field_list h =
     (if \<not> truthy obj \<or> \<not> truthy field_list then alloc (HObj []) h
      else let acc = length h; h = h @ [HObj []]
           in if \<not> isArray h field_list then (Inl TypeError, h)
              else pick_reduce H obj acc (elements h field_list) h)"

definition omit :: "jsval \<Rightarrow> jsval \<Rightarrow> heap \<Rightarrow> jsval res" where
  "omit obj field_list h =
     (if \<not> truthy obj \<or> \<not> truthy field_list then alloc (HObj (fromEntries (own_entries h obj))) h
      else on_value (iterate h field_list) h (\<lambda>fieldSet.
           on_value (entries h obj) h (\<lambda>es.
             alloc (HObj (fromEntries (filter (\<lambda>(key, _). Str key \<notin> set fieldSet) es))) h)))"

definition rename_entry :: "host \<Rightarrow> heap \<Rightarrow> jsval \<Rightarrow> string \<times> jsval \<Rightarrow> error + string \<times> jsval" where
  "rename_entry H h keyMap e =
     (case e of (key, v) \<Rightarrow>
        (case get H h keyMap key of
           Inl err \<Rightarrow> Inl err
         | Inr k' \<Rightarrow> Inr (property_key H h (if truthy k' then k' else Str key), v)))"

definition rename :: "host \<Rightarrow> jsval \<Rightarrow> jsval \<Rightarrow> heap \<Rightarrow> jsval res" where
  "rename H obj keyMap h =
     (if \<not> truthy obj \<or> \<not> truthy keyMap then alloc (HObj (fromEntries (own_entries h obj))) h
      else on_value (entries h obj) h (\<lambda>es.
           on_value (map_res (rename_entry H h keyMap) es) h (\<lambda>es'.
             alloc (HObj (fromEntries es')) h)))"

subsection \<open>Transformers declared by extension\<close>

text \<open>
  The methods a class inherits find its \<^verbatim>\<open>transform\<close> through \<^verbatim>\<open>this\<close>: the call
  \<^verbatim>\<open>this.transform(resource, options)\<close> runs the override, or the base method, with the
  class as receiver.
\<close>

fun this_transform :: "host \<Rightarrow> resource_class \<Rightarrow> js_method" where
  "this_transform H (Resource_class name None) = transform name"
| "this_transform H (Resource_class name (Some f)) =
     (\<lambda>resource options.
        call_fn H f (Class_this (Resource_class name (Some f))) [resource, options])"

definition this_collection :: "host \<Rightarrow> resource_class \<Rightarrow> js_method" where
  "this_collection H C = collection (this_transform H C)"

definition this_make :: "host \<Rightarrow> resource_class \<Rightarrow> js_method" where
  "this_make H C = make (this_transform H C)"

definition this_paginate :: "host \<Rightarrow> resource_class \<Rightarrow> js_method" where
  "this_paginate H C = paginate H (this_collection H C)"

section \<open>A host and a store to run the toolkit on\<close>

text \<open>
  The host of the examples. Of the built-in prototypes it knows the function members that
  a record inherits from \<^verbatim>\<open>Object.prototype\<close>, as the functions \<open>100\<close> to \<open>110\<close>;
  function \<open>100\<close> is \<^verbatim>\<open>Object\<close>, and the conversion of a function to a property key
  gives its source text. The examples read no member that an array, a string, a number or
  a boolean inherits, and do not read the accessor \<^verbatim>\<open>__proto__\<close>.
\<close>

definition object_members :: "(string \<times> fid) list" where
  "object_members =
     [(''constructor'', 100), (''hasOwnProperty'', 101), (''isPrototypeOf'', 102),
      (''propertyIsEnumerable'', 103), (''toLocaleString'', 104), (''toString'', 105),
      (''valueOf'', 106), (''__defineGetter__'', 107), (''__defineSetter__'', 108),
      (''__lookupGetter__'', 109), (''__lookupSetter__'', 110)]"

definition test_inherited :: "prototype \<Rightarrow> string \<Rightarrow> jsval" where
  "test_inherited p k =
     (case p of
        Object_prototype \<Rightarrow> (case map_of object_members k of Some f \<Rightarrow> Fun f | None \<Rightarrow> Undefined)
      | _ \<Rightarrow> Undefined)"

definition test_to_str :: "heap \<Rightarrow> jsval \<Rightarrow> string" where
  "test_to_str h v =
     (if v = Fun 100 then ''function Object() { [native code] }'' else ''[object Object]'')"

definition plain_host :: host where
  "plain_host =
     \<lparr> call_fn = (\<lambda>f this args h. (Inr Undefined, h)),
       fn_prop = (\<lambda>f k. Undefined),
       inherited = test_inherited,
       to_str = test_to_str,
       to_num = (\<lambda>h v. NaN) \<rparr>"

text \<open>
  The caller-supplied functions of the examples: function \<open>0\<close> is the transform of the
  repository's tests, \<^verbatim>\<open>(item) => ({ id: item.id })\<close>; function \<open>2\<close> is a static
  method that reaches the toolkit through its receiver,
  \<^verbatim>\<open>transform(item) { return this.clean({ id: item.id }) }\<close>, and throws when it is
  called on none; every other function returns its first argument.
\<close>

definition test_call :: "fid \<Rightarrow> receiver \<Rightarrow> jsval list \<Rightarrow> heap \<Rightarrow> (error + jsval) \<times> heap" where
  "test_call f this args h =
     (let item = (case args of [] \<Rightarrow> Undefined | x # _ \<Rightarrow> x)
      in if f = 0
         then on_value (get plain_host h item ''id'') h (\<lambda>v. alloc (HObj [(''id'', v)]) h)
         else if f = 2
         then (case this of
                 No_this \<Rightarrow> (Inl TypeError, h)
               | Class_this C \<Rightarrow>
                   on_value (get plain_host h item ''id'') h (\<lambda>v.
                     clean (Ref (length h)) (h @ [HObj [(''id'', v)]])))
         else (Inr item, h))"

definition test_host :: host where
  "test_host = plain_host \<lparr> call_fn := test_call \<rparr>"

text \<open>A value of the store \<open>h\<close>: a reference names a cell that \<open>h\<close> has.\<close>

definition allocated :: "heap \<Rightarrow> jsval \<Rightarrow> bool" where
  "allocated h v = (case v of Ref a \<Rightarrow> a < length h | _ \<Rightarrow> True)"

text \<open>
  The caller's functions leave the cells they find as they are: a call may add cells to
  the store and nothing else.
\<close>

definition callbacks_allocate_only :: "host \<Rightarrow> bool" where
  "callbacks_allocate_only H = (\<forall>f this args h. prefix h (snd (call_fn H f this args h)))"

section \<open>What the operations read\<close>

text \<open>
  What \<^verbatim>\<open>v[k]\<close> reads on a value that is neither \<^verbatim>\<open>null\<close> nor \<^verbatim>\<open>undefined\<close>: the
  own property \<open>k\<close>, or the member \<open>k\<close> of the prototype chain.
\<close>

definition prop_value :: "host \<Rightarrow> heap \<Rightarrow> jsval \<Rightarrow> string \<Rightarrow> jsval" where
  "prop_value H h v k = (case get H h v k of Inl e \<Rightarrow> Undefined | Inr x \<Rightarrow> x)"

section \<open>The specification's wording of three operations\<close>

text \<open>
  The specification says of \<open>paginate\<close> that the item sequence is the container's
  \<^verbatim>\<open>results\<close> field if that field is present, else its \<^verbatim>\<open>data\<close> field if present,
  else its \<^verbatim>\<open>rows\<close> field if present, else the container itself, and that a located
  value that is not a sequence is treated as empty; that the total is the container's
  \<^verbatim>\<open>total\<close> field if present, else its \<^verbatim>\<open>count\<close> field if present, else the
  length of the located sequence; and that \<^verbatim>\<open>last_page\<close> is the ceiling of the total
  divided by the page size, clamped to a minimum of 1. These definitions follow those
  words, to be compared with the code.
\<close>

definition spec_sequence :: "heap \<Rightarrow> jsval \<Rightarrow> jsval" where
  "spec_sequence h c =
     (case c of
        Ref a \<Rightarrow>
          (case cell h a of
             HObj ps \<Rightarrow>
               (case map_of ps ''results'' of
                  Some v \<Rightarrow> v
                | None \<Rightarrow>
                    (case map_of ps ''data'' of
                       Some v \<Rightarrow> v
                     | None \<Rightarrow> (case map_of ps ''rows'' of Some v \<Rightarrow> v | None \<Rightarrow> c)))
           | HArr xs \<Rightarrow> c)
      | _ \<Rightarrow> c)"

definition spec_items :: "heap \<Rightarrow> jsval \<Rightarrow> jsval list" where
  "spec_items h c = (if isArray h (spec_sequence h c) then elements h (spec_sequence h c) else [])"

definition spec_total :: "host \<Rightarrow> heap \<Rightarrow> jsval \<Rightarrow> jsval" where
  "spec_total H h c =
     (case c of
        Ref a \<Rightarrow>
          (case cell h a of
             HObj ps \<Rightarrow>
               (case map_of ps ''total'' of
                  Some v \<Rightarrow> v
                | None \<Rightarrow>
                    (case map_of ps ''count'' of
                       Some v \<Rightarrow> v
                     | None \<Rightarrow> prop_value H h (spec_sequence h c) ''length''))
           | HArr xs \<Rightarrow> prop_value H h c ''length'')
      | _ \<Rightarrow> prop_value H h c ''length'')"

definition spec_last_page :: "rat \<Rightarrow> rat \<Rightarrow> int" where
  "spec_last_page tot perPage = max 1 \<lceil>tot / perPage\<rceil>"

text \<open>
  The specification says of \<open>rename\<close> that each key \<open>k\<close> of the record is replaced by
  \<open>m[k]\<close> whenever \<open>k\<close> is present in the key map \<open>m\<close> and left as it is otherwise,
  that values are carried over unchanged and that the key order follows the record's.
\<close>

definition spec_rename :: "props \<Rightarrow> (string \<times> string) list \<Rightarrow> props" where
  "spec_rename r m = map (\<lambda>(k, v). (case map_of m k of Some k' \<Rightarrow> k' | None \<Rightarrow> k, v)) r"

section \<open>Auxiliary facts\<close>

subsection \<open>Reads, defaults and loops\<close>

lemma get_prop_value:
  "v \<noteq> Undefined \<Longrightarrow> v \<noteq> Null \<Longrightarrow> get H h v k = Inr (prop_value H h v k)"
  by (cases v) (simp_all add: prop_value_def split: hobj.splits)

lemma get_nullish [simp]:
  "get H h Undefined k = Inl TypeError" "get H h Null k = Inl TypeError"
  by simp_all

lemma default_obj_defined:
  "default_obj v h = (v', h') \<Longrightarrow> v' \<noteq> Undefined"
  by (auto simp: default_obj_def split: if_splits)

lemma default_obj_idem:
  "default_obj v h = (v', h') \<Longrightarrow> default_obj v' h' = (v', h')"
  by (auto simp: default_obj_def split: if_splits)

lemma map_calls_trace:
  "map_calls f xs h = (Inr ys, h') \<Longrightarrow>
     \<exists>hs. length hs = Suc (length xs) \<and> hs ! 0 = h \<and> hs ! length xs = h'
        \<and> length ys = length xs
        \<and> (\<forall>i<length xs. f (xs ! i) (hs ! i) = (Inr (ys ! i), hs ! Suc i))"
proof (induction xs arbitrary: ys h)
  case Nil
  then show ?case by (auto intro: exI [of _ "[h]"])
next
  case (Cons x xs)
  from Cons.prems obtain y h1 ys' where
    fx: "f x h = (Inr y, h1)" and rest: "map_calls f xs h1 = (Inr ys', h')" and ys: "ys = y # ys'"
    by (auto split: prod.splits sum.splits)
  from Cons.IH [OF rest] obtain hs where
    hs: "length hs = Suc (length xs)" "hs ! 0 = h1" "hs ! length xs = h'" "length ys' = length xs"
    and step: "\<forall>i<length xs. f (xs ! i) (hs ! i) = (Inr (ys' ! i), hs ! Suc i)"
    by blast
  have "\<forall>i<length (x # xs). f ((x # xs) ! i) ((h # hs) ! i) = (Inr (ys ! i), (h # hs) ! Suc i)"
  proof (intro allI impI)
    fix i assume "i < length (x # xs)"
    then show "f ((x # xs) ! i) ((h # hs) ! i) = (Inr (ys ! i), (h # hs) ! Suc i)"
      using fx hs step ys by (cases i) auto
  qed
  with hs ys show ?case
    by (intro exI [of _ "h # hs"]) simp
qed

lemma map_calls_total:
  "\<forall>x h. \<exists>y h'. f x h = (Inr y, h') \<Longrightarrow> \<exists>ys h'. map_calls f xs h = (Inr ys, h')"
proof (induction xs arbitrary: h)
  case Nil
  then show ?case by simp
next
  case (Cons x xs)
  from Cons.prems obtain y h1 where fx: "f x h = (Inr y, h1)" by blast
  from Cons.IH [OF Cons.prems] obtain ys h2 where "map_calls f xs h1 = (Inr ys, h2)" by blast
  with fx show ?case by simp
qed

lemma cell_default [simp]: "cell (h @ [HObj []]) a = cell h a"
  by (simp add: cell_def nth_append)

lemma isArray_default [simp]: "isArray (h @ [HObj []]) v = isArray h v"
  by (cases v) simp_all

lemma elements_default [simp]: "elements (h @ [HObj []]) v = elements h v"
  by (cases v) simp_all

lemma isArray_cell: "isArray h v \<longleftrightarrow> (\<exists>a xs. v = Ref a \<and> cell h a = HArr xs)"
  by (cases v) (auto split: hobj.splits)

lemma call_Fun: "call H (Fun f) args = call_fn H f No_this args"
  by (rule ext) simp

subsection \<open>What \<open>paginate\<close> computes\<close>

lemma truthy_defined: "truthy v \<Longrightarrow> v \<noteq> Undefined \<and> v \<noteq> Null"
  by (cases v) simp_all

lemma on_value_Inr [simp]: "on_value (Inr v) h f = f v"
  by (simp add: on_value_def)

lemma on_value_Inl [simp]: "on_value (Inl e) h f = (Inl e, h)"
  by (simp add: on_value_def)

lemma paginate_run:
  assumes d: "default_obj options h = (opts, h0)"
    and nn: "opts \<noteq> Null" "result \<noteq> Undefined" "result \<noteq> Null"
    and h1: "h1 = h0 @ [HObj (fromEntries (filter (\<lambda>(k, _). k \<noteq> ''page'' \<and> k \<noteq> ''perPage'')
                                              (own_entries h0 opts)))]"
    and pg: "page = (if prop_value H h0 opts ''page'' = Undefined then Num (Fin 1)
                     else prop_value H h0 opts ''page'')"
    and pp: "perPage = (if prop_value H h0 opts ''perPage'' = Undefined then Num (Fin 15)
                        else prop_value H h0 opts ''perPage'')"
    and rs: "results =
               (if truthy (prop_value H h1 result ''results'') then prop_value H h1 result ''results''
                else if truthy (prop_value H h1 result ''data'') then prop_value H h1 result ''data''
                else if truthy (prop_value H h1 result ''rows'') then prop_value H h1 result ''rows''
                else result)"
    and tt: "tot =
               (if prop_value H h1 result ''total'' \<noteq> Undefined \<and> prop_value H h1 result ''total'' \<noteq> Null
                then prop_value H h1 result ''total''
                else if prop_value H h1 result ''count'' \<noteq> Undefined \<and> prop_value H h1 result ''count'' \<noteq> Null
                then prop_value H h1 result ''count''
                else prop_value H h1 results ''length'')"
    and it: "items = (if isArray h1 results then results else Ref (length h1))"
    and h2: "h2 = (if isArray h1 results then h1 else h1 @ [HArr []])"
  shows "paginate H coll result options h =
           (case coll items (Ref (length h0)) h2 of
              (Inl e, h3) \<Rightarrow> (Inl e, h3)
            | (Inr data, h3) \<Rightarrow>
                (Inr (Ref (Suc (length h3))),
                 h3 @ [HObj [(''current_page'', page), (''per_page'', perPage), (''total'', tot),
                             (''last_page'',
                                if truthy (Num (js_ceil (js_div (to_number H h3 tot) (to_number H h3 perPage))))
                                then Num (js_ceil (js_div (to_number H h3 tot) (to_number H h3 perPage)))
                                else Num (Fin 1))],
                       HObj [(''data'', data), (''meta'', Ref (length h3))]]))"
proof -
  have od: "opts \<noteq> Undefined" using d by (rule default_obj_defined)
  have rn: "results \<noteq> Undefined" "results \<noteq> Null"
    using rs nn truthy_defined by (auto split: if_splits)
  have g_opts: "\<And>k. get H h0 opts k = Inr (prop_value H h0 opts k)"
    using od nn by (simp add: get_prop_value)
  have g_res: "\<And>k. get H h1 result k = Inr (prop_value H h1 result k)"
    using nn by (simp add: get_prop_value)
  have g_len: "get H h1 results ''length'' = Inr (prop_value H h1 results ''length'')"
    using rn by (simp add: get_prop_value)
  have on_if: "\<And>c a b hh (f :: jsval \<Rightarrow> jsval res). on_value (if c then Inr a else Inr b) hh f = f (if c then a else b)"
    by simp
  have r_eq: "results = (let r1 = prop_value H h1 result ''results'';
                    r2 = (if truthy r1 then r1 else prop_value H h1 result ''data'');
                    r3 = (if truthy r2 then r2 else prop_value H h1 result ''rows'')
                in if truthy r3 then r3 else result)"
    unfolding rs by (simp add: Let_def)
  have t_eq: "tot = (let t1 = prop_value H h1 result ''total'';
                    t2 = (if t1 \<noteq> Undefined \<and> t1 \<noteq> Null then t1 else prop_value H h1 result ''count'')
                in if t2 \<noteq> Undefined \<and> t2 \<noteq> Null then t2 else prop_value H h1 results ''length'')"
    unfolding tt by (simp add: Let_def)
  have l1: "length h1 = Suc (length h0)" using h1 by simp
  show ?thesis
    unfolding paginate_def d
    apply (simp only: prod.case g_opts on_value_Inr Let_def h1 [symmetric] length_append)
    apply (simp only: g_res on_value_Inr on_if r_eq [unfolded Let_def, symmetric] g_len
        t_eq [unfolded Let_def, symmetric]  pg [symmetric] pp [symmetric])
    apply (cases "isArray h1 results")
     apply (simp_all add: it h2 alloc_def l1 cong: prod.case_cong sum.case_cong)
    done
qed

lemma cell_append: "a < length h \<Longrightarrow> cell (h @ ex) a = cell h a"
  by (simp add: cell_def nth_append)

lemma prop_value_append: "allocated h v \<Longrightarrow> prop_value H (h @ ex) v k = prop_value H h v k"
  by (cases v) (simp_all add: prop_value_def allocated_def cell_append)

lemma isArray_append: "allocated h v \<Longrightarrow> isArray (h @ ex) v = isArray h v"
  by (cases v) (simp_all add: allocated_def cell_append)

lemma elements_append: "allocated h v \<Longrightarrow> elements (h @ ex) v = elements h v"
  by (cases v) (simp_all add: allocated_def cell_append)

lemma default_obj_append: "default_obj v h = (v', h') \<Longrightarrow> \<exists>ex. h' = h @ ex"
  by (auto simp: default_obj_def split: if_splits)

lemma paginate_null_container:
  "result = Undefined \<or> result = Null \<Longrightarrow> \<exists>e h'. paginate H coll result options h = (Inl e, h')"
  by (cases "get H (snd (default_obj options h)) (fst (default_obj options h)) ''page''";
      cases "get H (snd (default_obj options h)) (fst (default_obj options h)) ''perPage''")
     (auto simp: paginate_def Let_def split: prod.splits)

lemma paginate_null_options:
  "options = Null \<Longrightarrow> \<exists>e h'. paginate H coll result options h = (Inl e, h')"
  by (simp add: paginate_def default_obj_def)

subsection \<open>The division rounds to nearest\<close>

text \<open>
  \<open>floor_log2 x\<close> is the exponent \<open>e\<close> with \<open>2^e \<le> x < 2^(e+1)\<close>; the integer
  \<open>m\<close> that \<open>round_double\<close> multiplies the spacing \<open>u\<close> by is a nearest one
  (\<open>m * u\<close> is within \<open>u / 2\<close> of \<open>x\<close>), and the even one of the two when
  \<open>x\<close> is halfway.
\<close>

lemma pow2_powi: "pow2 k = 2 powi k"
  by (simp add: pow2_def power_int_def field_simps)

lemma pow2_pos: "0 < pow2 k"
  by (simp add: pow2_def)

lemma pow2_add: "pow2 (a + b) = pow2 a * pow2 b"
  by (simp add: pow2_powi power_int_add)

lemma pow2_mono: "a \<le> b \<Longrightarrow> pow2 a \<le> pow2 b"
  by (simp add: pow2_powi power_int_increasing)

lemma pow2_Suc: "pow2 (k + 1) = 2 * pow2 k"
  by (simp add: pow2_add) (simp add: pow2_def)

lemma bitlen_pow2_bounds:
  assumes "0 < n"
  shows "pow2 (bitlen n - 1) \<le> of_int n" "of_int n < pow2 (bitlen n)"
proof -
  from assms bitlen_nonneg [of n] bitlen_eq_zero_iff [of n] have b: "0 < bitlen n" by linarith
  from bitlen_bounds [OF assms] have lo: "2 ^ nat (bitlen n - 1) \<le> n" and hi: "n < 2 ^ nat (bitlen n)"
    by simp_all
  have "(of_int (2 ^ nat (bitlen n - 1)) :: rat) \<le> of_int n" using lo by (simp only: of_int_le_iff)
  with b show "pow2 (bitlen n - 1) \<le> of_int n" by (simp add: pow2_def)
  have "(of_int n :: rat) < of_int (2 ^ nat (bitlen n))" using hi by (simp only: of_int_less_iff)
  with b show "of_int n < pow2 (bitlen n)" by (simp add: pow2_def)
qed

lemma floor_log2_bounds:
  assumes x: "0 < x"
  shows "pow2 (floor_log2 x) \<le> x \<and> x < pow2 (floor_log2 x + 1)"
proof -
  obtain n d where q: "quotient_of x = (n, d)" by (cases "quotient_of x")
  have d: "0 < d" using q by (rule quotient_of_denom_pos)
  have xe: "x = of_int n / of_int d" using q by (rule quotient_of_div)
  have n: "0 < n" using x d xe by (simp add: zero_less_divide_iff)
  define k where "k = bitlen n - bitlen d"
  have dr: "(0::rat) < of_int d" using d by simp
  have lo: "pow2 (k - 1) \<le> x"
  proof -
    have "pow2 (k - 1) * of_int d \<le> pow2 (k - 1) * pow2 (bitlen d)"
      using bitlen_pow2_bounds(2) [OF d] pow2_pos [of "k - 1"] by simp
    also have "\<dots> = pow2 (bitlen n - 1)" by (simp add: pow2_add [symmetric] k_def)
    also have "\<dots> \<le> of_int n" using bitlen_pow2_bounds(1) [OF n] .
    finally show ?thesis using dr by (simp add: xe pos_le_divide_eq)
  qed
  have hi: "x < pow2 (k + 1)"
  proof -
    have "of_int n < pow2 (bitlen n)" using bitlen_pow2_bounds(2) [OF n] .
    also have "\<dots> = pow2 (k + 1) * pow2 (bitlen d - 1)" by (simp add: pow2_add [symmetric] k_def)
    also have "\<dots> \<le> pow2 (k + 1) * of_int d"
      using bitlen_pow2_bounds(1) [OF d] pow2_pos [of "k + 1"] by simp
    finally show ?thesis using dr by (simp add: xe pos_divide_less_eq)
  qed
  show ?thesis
  proof (cases "pow2 k \<le> x")
    case True
    then have "floor_log2 x = k" by (simp add: floor_log2_def q k_def)
    with True hi show ?thesis by simp
  next
    case False
    then have "floor_log2 x = k - 1" by (simp add: floor_log2_def q k_def)
    with False lo show ?thesis by simp
  qed
qed

lemma round_half_even_nearest:
  "\<bar>of_int (round_half_even y) - y\<bar> \<le> 1 / 2
   \<and> (\<bar>of_int (round_half_even y) - y\<bar> = 1 / 2 \<longrightarrow> even (round_half_even y))"
proof -
  define f where "f = \<lfloor>y\<rfloor>"
  define r where "r = y - of_int f"
  have r: "0 \<le> r" "r < 1" unfolding r_def f_def by linarith+
  have y: "y = of_int f + r" by (simp add: r_def)
  show ?thesis
    unfolding round_half_even_def Let_def f_def [symmetric] r_def [symmetric]
    using r by (auto simp: y)
qed

lemma round_double_nearest:
  assumes x: "0 < x"
  defines "u \<equiv> pow2 (max (floor_log2 x) (- 1022) - 52)"
  defines "m \<equiv> round_half_even (x / u)"
  shows "\<bar>of_int m * u - x\<bar> \<le> u / 2"
    and "\<bar>of_int m * u - x\<bar> = u / 2 \<longrightarrow> even m"
    and "round_double neg x =
           (if pow2 1024 \<le> of_int m * u then (if neg then NegInf else PosInf)
            else if m = 0 then (if neg then NegZero else Fin 0)
            else Fin (if neg then - (of_int m * u) else of_int m * u))"
proof -
  have u: "0 < u" by (simp add: u_def pow2_pos)
  have e: "of_int m * u - x = (of_int m - x / u) * u" using u by (simp add: field_simps)
  have a: "\<bar>of_int m * u - x\<bar> = \<bar>of_int m - x / u\<bar> * u"
    unfolding e using u by (simp add: abs_mult)
  from round_half_even_nearest [of "x / u"]
  have n: "\<bar>of_int m - x / u\<bar> \<le> 1 / 2" and t: "\<bar>of_int m - x / u\<bar> = 1 / 2 \<longrightarrow> even m"
    by (simp_all add: m_def)
  from n u show "\<bar>of_int m * u - x\<bar> \<le> u / 2"
    unfolding a by (simp add: field_simps)
  from t u show "\<bar>of_int m * u - x\<bar> = u / 2 \<longrightarrow> even m"
    unfolding a by (simp add: field_simps)
  from u show "round_double neg x =
           (if pow2 1024 \<le> of_int m * u then (if neg then NegInf else PosInf)
            else if m = 0 then (if neg then NegZero else Fin 0)
            else Fin (if neg then - (of_int m * u) else of_int m * u))"
    by (simp add: round_double_def Let_def u_def [symmetric] m_def [symmetric])
qed

subsection \<open>The last page\<close>

lemma round_half_even_nonneg: "0 \<le> y \<Longrightarrow> 0 \<le> round_half_even y"
  by (simp add: round_half_even_def Let_def)

lemma round_double_unsigned:
  assumes "0 \<le> x"
  shows "round_double False x = PosInf \<or> (\<exists>r. round_double False x = Fin r \<and> 0 \<le> r)"
proof -
  define u where "u = pow2 (max (floor_log2 x) (- 1022) - 52)"
  have u: "0 < u" by (simp add: u_def pow2_pos)
  with assms have "0 \<le> x / u" by simp
  then have "0 \<le> round_half_even (x / u)" by (rule round_half_even_nonneg)
  with u have "0 \<le> of_int (round_half_even (x / u)) * u" by simp
  then show ?thesis
    by (simp add: round_double_def Let_def u_def [symmetric])
qed

lemma js_div_unsigned:
  assumes "0 \<le> a" "0 < b"
  shows "js_div (Fin a) (Fin b) = PosInf \<or> (\<exists>x. js_div (Fin a) (Fin b) = Fin x \<and> 0 \<le> x)"
proof (cases "a = 0")
  case True
  with assms show ?thesis by (simp add: js_div_def is_infinity_def)
next
  case False
  with assms have "0 \<le> \<bar>a\<bar> / \<bar>b\<bar>" by simp
  from round_double_unsigned [OF this] False assms show ?thesis
    by (simp add: js_div_def is_infinity_def)
qed

lemma js_div_zero:
  "b \<noteq> 0 \<Longrightarrow> js_div (Fin 0) (Fin b) = Fin 0 \<or> js_div (Fin 0) (Fin b) = NegZero"
  by (simp add: js_div_def is_infinity_def)

lemma ceil_or_one:
  fixes q :: jsnum
  defines "lp \<equiv> (if truthy (Num (js_ceil q)) then Num (js_ceil q) else Num (Fin 1))"
  shows "lp \<noteq> Num (Fin 0)" "lp \<noteq> Num NegZero" "lp \<noteq> Num NaN"
    and "q = Fin x \<Longrightarrow> - 1 < x \<Longrightarrow> lp = Num (Fin (of_int (max 1 \<lceil>x\<rceil>)))"
    and "q = Fin x \<Longrightarrow> x \<le> - 1 \<Longrightarrow> lp = Num (Fin (of_int \<lceil>x\<rceil>)) \<and> \<lceil>x\<rceil> < 0"
    and "q = NaN \<or> q = NegZero \<Longrightarrow> lp = Num (Fin 1)"
    and "q = PosInf \<or> q = NegInf \<Longrightarrow> lp = Num q"
proof -
  show "lp \<noteq> Num (Fin 0)" "lp \<noteq> Num NegZero" "lp \<noteq> Num NaN"
    by (auto simp: lp_def)
  show "lp = Num (Fin (of_int (max 1 \<lceil>x\<rceil>)))" if q: "q = Fin x" and x: "- 1 < x"
  proof (cases "x \<le> 0")
    case True
    with x have "\<lceil>x\<rceil> = 0" by (simp add: ceiling_eq_iff)
    then show ?thesis by (simp add: lp_def q)
  next
    case False
    then have "\<lceil>x\<rceil> \<noteq> 0" by (simp add: ceiling_eq_iff)
    with False show ?thesis by (simp add: lp_def q max_def)
  qed
  show "lp = Num (Fin (of_int \<lceil>x\<rceil>)) \<and> \<lceil>x\<rceil> < 0" if q: "q = Fin x" and x: "x \<le> - 1"
  proof -
    from x have "\<lceil>x\<rceil> \<le> - 1" by (simp add: ceiling_le_iff)
    with x show ?thesis by (simp add: lp_def q)
  qed
  show "lp = Num (Fin 1)" if "q = NaN \<or> q = NegZero"
    using that by (auto simp: lp_def)
  show "lp = Num q" if "q = PosInf \<or> q = NegInf"
    using that by (auto simp: lp_def)
qed

text \<open>
  Quotients of doubles, computed: \<^verbatim>\<open>50 / 10\<close>, \<^verbatim>\<open>40 / 15\<close> and \<^verbatim>\<open>-30 / 15\<close>;
  \<^verbatim>\<open>13510798882111492 / 4503599627370497\<close>, whose exact quotient is above \<open>3\<close> and
  rounds to \<open>3\<close>; and \<^verbatim>\<open>1.1 / 0.1\<close> (the two doubles written as fractions), whose
  exact quotient is above \<open>11\<close> and rounds to \<open>11\<close>.
\<close>

lemma quotients:
  "js_div (Fin 50) (Fin 10) = Fin 5"
  "js_div (Fin 40) (Fin 15) = Fin (6004799503160661 / 2251799813685248)"
  "js_div (Fin (- 30)) (Fin 15) = Fin (- 2)"
  "js_div (Fin 13510798882111492) (Fin 4503599627370497) = Fin 3"
  "js_div (Fin (2476979795053773 / 2251799813685248)) (Fin (3602879701896397 / 36028797018963968))
     = Fin 11"
  by code_simp+

lemma ceilings:
  "js_ceil (js_div (Fin 50) (Fin 10)) = Fin 5"
  "js_ceil (js_div (Fin 40) (Fin 15)) = Fin 3"
  "js_ceil (js_div (Fin 1) (Fin 15)) = Fin 1"
  "js_ceil (js_div (Fin 0) (Fin 15)) = Fin 0"
  "js_ceil (js_div (Fin (- 30)) (Fin 15)) = Fin (- 2)"
  "js_ceil (js_div (Fin (- 5)) (Fin 15)) = NegZero"
  "js_ceil (js_div (Fin 13510798882111492) (Fin 4503599627370497)) = Fin 3"
  "js_ceil (js_div (Fin (2476979795053773 / 2251799813685248))
                   (Fin (3602879701896397 / 36028797018963968))) = Fin 11"
  by code_simp+

subsection \<open>Records in listing order\<close>

lemma obj_set_last:
  "js_ordered (ps @ [(k, v)]) \<Longrightarrow> obj_set k v ps = ps @ [(k, v)]"
  by (induction ps) (auto simp: js_ordered_def key_lt_def)

lemma js_ordered_butlast: "js_ordered (ps @ [p]) \<Longrightarrow> js_ordered ps"
  by (simp add: js_ordered_def sorted_wrt_append)

lemma fromEntries_snoc: "fromEntries (es @ [(k, v)]) = obj_set k v (fromEntries es)"
  by (simp add: fromEntries_def)

lemma fromEntries_ordered: "js_ordered ps \<Longrightarrow> fromEntries ps = ps"
proof (induction ps rule: rev_induct)
  case Nil
  show ?case by (simp add: fromEntries_def)
next
  case (snoc p ps)
  obtain k v where p: "p = (k, v)" by (cases p)
  from snoc.prems have "js_ordered ps" by (rule js_ordered_butlast)
  with snoc.IH have "fromEntries ps = ps" by simp
  with snoc.prems p show ?case by (simp add: fromEntries_snoc obj_set_last)
qed

lemma js_ordered_filter: "js_ordered ps \<Longrightarrow> js_ordered (filter P ps)"
  by (simp add: js_ordered_def sorted_wrt_map sorted_wrt_filter)

lemma typeof_object: "truthy v \<and> typeof v = ''object'' \<longleftrightarrow> (\<exists>a. v = Ref a)"
  by (cases v) auto

lemma map_res_Inr: "(\<And>x. f x = Inr (g x)) \<Longrightarrow> map_res f xs = Inr (map g xs)"
  by (induction xs) simp_all

lemma map_of_obj_set: "map_of (obj_set k v ps) = (map_of ps)(k \<mapsto> v)"
  by (induction ps) (auto simp: fun_eq_iff)

lemma map_of_fromEntries: "map_of (fromEntries es) = map_of (rev es)"
proof (induction es rule: rev_induct)
  case Nil
  show ?case by (simp add: fromEntries_def)
next
  case (snoc e es)
  obtain k v where e: "e = (k, v)" by (cases e)
  show ?case by (simp add: e fromEntries_snoc map_of_obj_set snoc.IH)
qed

subsection \<open>The store after a call\<close>

lemma prefix_alloc: "prefix h0 h \<Longrightarrow> prefix h0 (snd (alloc ob h))"
  by (simp add: alloc_def prefix_def) (metis append.assoc)

lemma prefix_snoc: "prefix h0 h \<Longrightarrow> prefix h0 (h @ ex)"
  by (metis prefix_def append.assoc)

lemma prefix_default_obj: "prefix h0 h \<Longrightarrow> prefix h0 (snd (default_obj v h))"
  by (simp add: default_obj_def prefix_snoc)

lemma prefix_set_prop:
  "prefix h0 h \<Longrightarrow> length h0 \<le> t \<Longrightarrow> prefix h0 (set_prop t k v h)"
  by (auto simp: set_prop_def prefix_def list_update_append split: hobj.splits if_splits)

lemma length_set_prop [simp]: "length (set_prop t k v h) = length h"
  by (simp add: set_prop_def split: hobj.splits)

lemma prefix_call:
  "callbacks_allocate_only H \<Longrightarrow> prefix h0 h \<Longrightarrow> prefix h0 (snd (call H f args h))"
  by (cases f) (auto simp: callbacks_allocate_only_def intro: prefix_order.trans)

lemma prefix_map_calls:
  "(\<And>x h. prefix h (snd (f x h))) \<Longrightarrow> prefix h (snd (map_calls f xs h))"
proof (induction xs arbitrary: h)
  case Nil
  show ?case by simp
next
  case (Cons x xs)
  obtain r h1 where fx: "f x h = (r, h1)" by (cases "f x h")
  have p1: "prefix h h1" using Cons.prems [of h x] fx by simp
  show ?case
  proof (cases r)
    case (Inl e)
    with fx p1 show ?thesis by simp
  next
    case (Inr y)
    obtain r2 h2 where m: "map_calls f xs h1 = (r2, h2)" by (cases "map_calls f xs h1")
    have "prefix h1 h2" using Cons.IH [OF Cons.prems, of h1] m by simp
    with p1 have "prefix h h2" by (rule prefix_order.trans)
    with fx Inr m show ?thesis by (cases r2) simp_all
  qed
qed

lemma prefix_collection:
  assumes "\<And>x o' h. prefix h (snd (tr x o' h))"
  shows "prefix h (snd (collection tr rs opts h))"
proof -
  obtain o' h0 where d: "default_obj opts h = (o', h0)" by (cases "default_obj opts h")
  have p0: "prefix h h0" using prefix_default_obj [of h h opts] d by simp
  show ?thesis
  proof (cases "\<not> truthy rs \<or> \<not> isArray h0 rs")
    case True
    then show ?thesis using d p0 by (auto simp: collection_def alloc_def prefix_snoc)
  next
    case False
    obtain r h1 where m: "map_calls (\<lambda>resource. tr resource o') (elements h0 rs) h0 = (r, h1)"
      by (cases "map_calls (\<lambda>resource. tr resource o') (elements h0 rs) h0")
    have "prefix h0 h1"
      using prefix_map_calls [of "\<lambda>resource. tr resource o'" h0 "elements h0 rs"] assms m by simp
    with p0 have "prefix h h1" by (rule prefix_order.trans)
    with False d m show ?thesis
      by (cases r) (auto simp: collection_def alloc_def prefix_snoc)
  qed
qed

lemma prefix_this_transform:
  "callbacks_allocate_only H \<Longrightarrow> prefix h (snd (this_transform H C x o' h))"
  by (cases C; cases "case C of Resource_class n ov \<Rightarrow> ov")
     (auto simp: transform_def default_obj_def callbacks_allocate_only_def split: prod.splits)


lemma prefix_on_value:
  "prefix h0 h \<Longrightarrow> (\<And>v. prefix h0 (snd (f v))) \<Longrightarrow> prefix h0 (snd (on_value r h f))"
  by (cases r) simp_all

lemma prefix_paginate:
  assumes coll: "\<And>items topts hc. prefix hc (snd (coll items topts hc))"
  shows "prefix h (snd (paginate H coll result options h))"
proof -
  obtain opts h0 where d: "default_obj options h = (opts, h0)" by (cases "default_obj options h")
  have p0: "prefix h h0" using prefix_default_obj [of h h options] d by simp
  have tail: "prefix h (snd (case coll items topts hc of
                    (Inl e, h3) \<Rightarrow> (Inl e, h3)
                  | (Inr data, h3) \<Rightarrow> alloc (ob2 data h3) (h3 @ [ob1 h3])))"
    if "prefix h hc" for items topts hc ob1 ob2
  proof -
    obtain r h3 where c: "coll items topts hc = (r, h3)" by (cases "coll items topts hc")
    have "prefix hc h3" using coll [of hc items topts] c by simp
    with that have "prefix h h3" by (rule prefix_order.trans)
    then show ?thesis using c by (cases r) (simp_all add: alloc_def prefix_snoc)
  qed
  have tail2: "prefix h (snd (case (if c then (i1, hc1) else (i2, hc2)) of
                    (items, hh) \<Rightarrow>
                       case coll items topts hh of
                         (Inl e, h3) \<Rightarrow> (Inl e, h3)
                       | (Inr data, h3) \<Rightarrow> alloc (ob2 data h3) (h3 @ [ob1 h3])))"
    if "prefix h hc1" "prefix h hc2" for c i1 i2 hc1 hc2 topts ob1 ob2
    using that tail by (cases c) simp_all
  show ?thesis
    unfolding paginate_def d prod.case Let_def
    by (intro prefix_on_value p0 prefix_snoc tail2)
qed


lemma prefix_clean: "prefix h0 h \<Longrightarrow> prefix h0 (snd (clean obj h))"
  by (cases "entries h obj") (auto simp: clean_def alloc_def prefix_snoc)

lemma prefix_assign_entries:
  "prefix h0 h \<Longrightarrow> length h0 \<le> t \<Longrightarrow>
     prefix h0 (foldl (\<lambda>h (k, v). set_prop t k v h) h es)"
  by (induction es arbitrary: h) (auto simp: prefix_set_prop)

lemma prefix_assign:
  "prefix h0 h \<Longrightarrow> length h0 \<le> t \<Longrightarrow> prefix h0 (assign t sources h)"
  unfolding assign_def
  by (induction sources arbitrary: h) (auto simp: prefix_assign_entries)

lemma prefix_merge: "prefix h (snd (merge objects h))"
  unfolding merge_def Let_def
  by (intro prefix_clean prefix_assign prefix_snoc) simp_all

lemma prefix_wrap: "prefix h (snd (wrap data meta h))"
proof -
  obtain m h0 where d: "default_obj meta h = (m, h0)" by (cases "default_obj meta h")
  have p0: "prefix h h0" using prefix_default_obj [of h h meta] d by simp
  have l: "length h \<le> length h0" using p0 by (rule prefix_length_le)
  show ?thesis
    unfolding wrap_def d prod.case Let_def
    by (auto intro!: prefix_set_prop prefix_snoc p0 l)
qed

lemma prefix_when:
  "callbacks_allocate_only H \<Longrightarrow> prefix h (snd (when H condition val h))"
  by (simp add: when_def prefix_call)

lemma prefix_whenOrElse:
  "callbacks_allocate_only H \<Longrightarrow> prefix h (snd (whenOrElse H condition val defaultValue h))"
  by (simp add: whenOrElse_def Let_def prefix_call)

lemma prefix_whenLoaded:
  "callbacks_allocate_only H \<Longrightarrow> prefix h (snd (whenLoaded H resource relation transformer h))"
  by (cases "get H h resource (property_key H h relation)")
     (simp_all add: whenLoaded_def Let_def prefix_call)

lemma prefix_whenNotNull:
  "callbacks_allocate_only H \<Longrightarrow> prefix h (snd (whenNotNull H val transformer h))"
  by (simp add: whenNotNull_def Let_def prefix_call)

lemma prefix_pick_reduce:
  "prefix h0 h \<Longrightarrow> length h0 \<le> acc \<Longrightarrow> prefix h0 (snd (pick_reduce H obj acc fs h))"
proof (induction fs arbitrary: h)
  case Nil
  then show ?case by simp
next
  case (Cons f fs)
  show ?case
  proof (cases "get H h obj (property_key H h f)")
    case (Inl e)
    with Cons.prems show ?thesis by simp
  next
    case (Inr v)
    with Cons show ?thesis by (simp add: prefix_set_prop)
  qed
qed

lemma prefix_pick: "prefix h (snd (pick H obj field_list h))"
  unfolding pick_def Let_def
  by (auto intro!: prefix_pick_reduce simp: alloc_def prefix_snoc)

lemma prefix_omit: "prefix h (snd (omit obj field_list h))"
  unfolding omit_def
  by (auto intro!: prefix_on_value simp: alloc_def prefix_snoc)

lemma prefix_rename: "prefix h (snd (rename H obj keyMap h))"
  unfolding rename_def
  by (auto intro!: prefix_on_value simp: alloc_def prefix_snoc)

lemma prefix_this_paginate:
  "callbacks_allocate_only H \<Longrightarrow> prefix h (snd (this_paginate H C result options h))"
  unfolding this_paginate_def this_collection_def
  by (intro prefix_paginate prefix_collection prefix_this_transform)

lemma prefix_define_collection:
  "callbacks_allocate_only H \<Longrightarrow> prefix h (snd (define_collection H fn data options h))"
proof -
  assume H: "callbacks_allocate_only H"
  have "define_collection H fn = collection (\<lambda>item opts. call H fn [item, opts])"
    by (intro ext) (simp add: define_collection_def collection_def)
  then show ?thesis using H by (simp add: prefix_collection prefix_call)
qed

lemma prefix_define_paginate:
  "callbacks_allocate_only H \<Longrightarrow> prefix h (snd (define_paginate H fn result options h))"
proof -
  assume H: "callbacks_allocate_only H"
  obtain o' h0 where d: "default_obj options h = (o', h0)" by (cases "default_obj options h")
  have p0: "prefix h h0" using prefix_default_obj [of h h options] d by simp
  have "prefix h0 (snd (paginate H (define_collection H fn) result o' h0))"
    by (intro prefix_paginate prefix_define_collection H)
  with p0 show ?thesis
    unfolding define_paginate_def d prod.case by (rule prefix_order.trans)
qed

lemma test_host_allocates_only: "callbacks_allocate_only test_host"
proof -
  have "prefix h (snd (test_call f this args h))" for f this args h
    by (cases "get plain_host h (case args of [] \<Rightarrow> Undefined | x # _ \<Rightarrow> x) ''id''"; cases this)
       (simp_all add: test_call_def Let_def alloc_def prefix_clean)
  then show ?thesis by (simp add: callbacks_allocate_only_def test_host_def)
qed

lemma define_collection_eq:
  assumes "\<And>item opts hh. call_fn H f (Class_this (Resource_class name (Some f))) [item, opts] hh
                            = call_fn H f No_this [item, opts] hh"
  shows "define_collection H (Fun f) = this_collection H (Resource_class name (Some f))"
proof -
  have "(\<lambda>item. call_fn H f No_this [item, opts])
          = (\<lambda>resource. call_fn H f (Class_this (Resource_class name (Some f))) [resource, opts])"
    for opts
    by (intro ext) (simp add: assms)
  then show ?thesis
    by (intro ext)
       (simp add: define_collection_def this_collection_def collection_def call_Fun
          split: prod.splits)
qed

subsection \<open>Decimal keys\<close>

lemma digit_cases: "d < 10 \<Longrightarrow> d \<in> {0, 1, 2, 3, 4, 5, 6, 7, 8, 9::nat}"
  by auto

lemma digit_char:
  "d < 10 \<Longrightarrow> of_char (''0123456789'' ! d) = 48 + d \<and> is_digit (''0123456789'' ! d)"
  using digit_cases [of d] by (auto simp: is_digit_def)

lemma digit_char_zero: "d < 10 \<Longrightarrow> (''0123456789'' ! d = CHR ''0'') = (d = 0)"
  using digit_cases [of d] by auto

lemma nat_of_digits_snoc:
  "nat_of_digits (s @ [c]) = 10 * nat_of_digits s + (of_char c - 48)"
  by (simp add: nat_of_digits_def)

lemma show_nat_digits:
  "nat_of_digits (show_nat n) = n \<and> show_nat n \<noteq> [] \<and> list_all is_digit (show_nat n)
   \<and> (hd (show_nat n) = CHR ''0'' \<longrightarrow> n = 0)"
proof (induction n rule: show_nat.induct)
  case (1 n)
  show ?case
  proof (cases "n < 10")
    case True
    then show ?thesis
      using digit_char [of n] digit_char_zero [of n]
      by (simp add: show_nat.simps [of n] nat_of_digits_def)
  next
    case False
    then have ih: "nat_of_digits (show_nat (n div 10)) = n div 10"
      "show_nat (n div 10) \<noteq> []" "list_all is_digit (show_nat (n div 10))"
      "hd (show_nat (n div 10)) = CHR ''0'' \<longrightarrow> n div 10 = 0"
      using "1.IH" by simp_all
    have d: "n mod 10 < 10" by simp
    have nz: "n div 10 \<noteq> 0" using False by simp
    show ?thesis
      using False ih nz digit_char [OF d]
      by (simp add: show_nat.simps [of n] nat_of_digits_snoc)
  qed
qed

lemma index_of_show_nat: "n < 4294967295 \<Longrightarrow> index_of_key (show_nat n) = Some n"
  using show_nat_digits [of n]
  by (auto simp: index_of_key_def show_nat.simps [of 0])

lemma js_ordered_index_entries:
  "length xs \<le> 4294967295 \<Longrightarrow> js_ordered (index_entries xs)"
proof -
  assume len: "length xs \<le> 4294967295"
  have "key_lt (show_nat i) (show_nat j)" if "i < j" "j < length xs" for i j
    using that len index_of_show_nat [of i] index_of_show_nat [of j]
    by (auto simp: key_lt_def key_before_def)
  then show ?thesis
    by (simp add: js_ordered_def index_entries_def sorted_wrt_iff_nth_less comp_def)
qed

section \<open>The repository's tests\<close>

text \<open>
  The cases of \<^verbatim>\<open>tests/resource.test.js\<close>, run on the model: the values the tests
  expect are the values the model computes. (The \<^verbatim>\<open>paginate\<close> case is the witness of
  C1 below.) The last fact is the listing order of a record with array-index keys.
\<close>

lemmas host_defs =
  test_host_def plain_host_def test_call_def test_inherited_def object_members_def test_to_str_def

lemmas run_defs =
  collection_def make_def when_def whenOrElse_def whenLoaded_def whenNotNull_def clean_def
  merge_def assign_def set_prop_def wrap_def pick_def omit_def rename_def rename_entry_def
  define_transform_def define_collection_def define_make_def this_collection_def this_make_def
  default_obj_def alloc_def cell_def entries_def property_key_def on_value_def
  fromEntries_def key_before_def index_of_key_def is_digit_def
  test_host_def test_call_def plain_host_def test_inherited_def object_members_def
  test_to_str_def Let_def

lemma test_collection:
  "this_collection test_host (Resource_class ''TestResource'' (Some 0)) (Ref 0) Undefined
     [HArr [Ref 1, Ref 2], HObj [(''id'', Num (Fin 1))], HObj [(''id'', Num (Fin 2))]]
   = (Inr (Ref 6),
      [HArr [Ref 1, Ref 2], HObj [(''id'', Num (Fin 1))], HObj [(''id'', Num (Fin 2))],
       HObj [], HObj [(''id'', Num (Fin 1))], HObj [(''id'', Num (Fin 2))], HArr [Ref 4, Ref 5]])"
  "this_collection test_host (Resource_class ''TestResource'' (Some 0)) Null (Ref 0) [HObj []]
   = (Inr (Ref 1), [HObj [], HArr []])"
  "this_collection test_host (Resource_class ''TestResource'' (Some 0)) Undefined (Ref 0) [HObj []]
   = (Inr (Ref 1), [HObj [], HArr []])"
  by (simp_all add: run_defs)

lemma test_make:
  "this_make test_host (Resource_class ''TestResource'' (Some 0)) Null (Ref 0) [HObj []]
   = (Inr Null, [HObj []])"
  "this_make test_host (Resource_class ''TestResource'' (Some 0)) (Ref 1) (Ref 0)
     [HObj [], HObj [(''id'', Num (Fin 1))]]
   = (Inr (Ref 2), [HObj [], HObj [(''id'', Num (Fin 1))], HObj [(''id'', Num (Fin 1))]])"
  by (simp_all add: run_defs)

lemma test_when:
  "when test_host (Bool True) (Str ''value'') [] = (Inr (Str ''value''), [])"
  "when test_host (Bool False) (Str ''value'') [] = (Inr Undefined, [])"
  "when test_host (Bool False) (Fun 0) [] = (Inr Undefined, [])"
  by (simp_all add: run_defs)

lemma test_whenLoaded:
  "whenLoaded test_host (Ref 0) (Str ''posts'') Undefined [HObj [(''id'', Num (Fin 1))]]
   = (Inr Undefined, [HObj [(''id'', Num (Fin 1))]])"
  "whenLoaded test_host (Ref 0) (Str ''posts'') Undefined
     [HObj [(''id'', Num (Fin 1)), (''posts'', Ref 1)], HArr []]
   = (Inr (Ref 1), [HObj [(''id'', Num (Fin 1)), (''posts'', Ref 1)], HArr []])"
  by (simp_all add: run_defs)

lemma test_clean:
  "clean (Ref 0) [HObj [(''a'', Num (Fin 1)), (''b'', Undefined), (''c'', Num (Fin 3))]]
   = (Inr (Ref 1),
      [HObj [(''a'', Num (Fin 1)), (''b'', Undefined), (''c'', Num (Fin 3))],
       HObj [(''a'', Num (Fin 1)), (''c'', Num (Fin 3))]])"
  "clean (Ref 0) [HObj [(''a'', Num (Fin 1)), (''b'', Null)]]
   = (Inr (Ref 1),
      [HObj [(''a'', Num (Fin 1)), (''b'', Null)], HObj [(''a'', Num (Fin 1)), (''b'', Null)]])"
  by (simp_all add: run_defs)

lemma test_merge:
  "merge [Ref 0, Ref 1, Ref 2]
     [HObj [(''a'', Num (Fin 1))], HObj [(''b'', Num (Fin 2))], HObj [(''c'', Undefined)]]
   = (Inr (Ref 4),
      [HObj [(''a'', Num (Fin 1))], HObj [(''b'', Num (Fin 2))], HObj [(''c'', Undefined)],
       HObj [(''a'', Num (Fin 1)), (''b'', Num (Fin 2)), (''c'', Undefined)],
       HObj [(''a'', Num (Fin 1)), (''b'', Num (Fin 2))]])"
  "merge [Ref 0, Undefined, Null, Ref 1]
     [HObj [(''a'', Num (Fin 1))], HObj [(''b'', Num (Fin 2))]]
   = (Inr (Ref 3),
      [HObj [(''a'', Num (Fin 1))], HObj [(''b'', Num (Fin 2))],
       HObj [(''a'', Num (Fin 1)), (''b'', Num (Fin 2))],
       HObj [(''a'', Num (Fin 1)), (''b'', Num (Fin 2))]])"
  by (simp_all add: run_defs)

lemma test_wrap:
  "wrap (Ref 0) Undefined [HObj [(''id'', Num (Fin 1))]]
   = (Inr (Ref 2), [HObj [(''id'', Num (Fin 1))], HObj [], HObj [(''data'', Ref 0)]])"
  "wrap (Ref 0) (Ref 1) [HObj [(''id'', Num (Fin 1))], HObj [(''total'', Num (Fin 10))]]
   = (Inr (Ref 2),
      [HObj [(''id'', Num (Fin 1))], HObj [(''total'', Num (Fin 10))],
       HObj [(''data'', Ref 0), (''meta'', Ref 1)]])"
  by (simp_all add: run_defs)

lemma test_define:
  "define_transform test_host (Fun 0) (Ref 1) (Ref 0) [HObj [], HObj [(''id'', Num (Fin 1))]]
   = (Inr (Ref 2), [HObj [], HObj [(''id'', Num (Fin 1))], HObj [(''id'', Num (Fin 1))]])"
  "define_make test_host (Fun 0) Null (Ref 0) [HObj []] = (Inr Null, [HObj []])"
  by (simp_all add: run_defs)

lemma test_pick:
  "pick test_host (Ref 0) (Ref 1)
     [HObj [(''a'', Num (Fin 1)), (''b'', Num (Fin 2)), (''c'', Num (Fin 3))],
      HArr [Str ''a'', Str ''c'']]
   = (Inr (Ref 2),
      [HObj [(''a'', Num (Fin 1)), (''b'', Num (Fin 2)), (''c'', Num (Fin 3))],
       HArr [Str ''a'', Str ''c''],
       HObj [(''a'', Num (Fin 1)), (''c'', Num (Fin 3))]])"
  by (simp add: run_defs)

lemma test_omit:
  "omit (Ref 0) (Ref 1)
     [HObj [(''a'', Num (Fin 1)), (''b'', Num (Fin 2)), (''c'', Num (Fin 3))], HArr [Str ''b'']]
   = (Inr (Ref 2),
      [HObj [(''a'', Num (Fin 1)), (''b'', Num (Fin 2)), (''c'', Num (Fin 3))], HArr [Str ''b''],
       HObj [(''a'', Num (Fin 1)), (''c'', Num (Fin 3))]])"
  by (simp add: run_defs)

lemma test_rename:
  "rename test_host (Ref 0) (Ref 1)
     [HObj [(''old_name'', Str ''value'')], HObj [(''old_name'', Str ''newName'')]]
   = (Inr (Ref 2),
      [HObj [(''old_name'', Str ''value'')], HObj [(''old_name'', Str ''newName'')],
       HObj [(''newName'', Str ''value'')]])"
  by (simp add: run_defs)

text \<open>
  Members of the prototype chain, and the key \<^verbatim>\<open>__proto__\<close>. A record inherits
  \<^verbatim>\<open>toString\<close>. \<^verbatim>\<open>rename({constructor: 1, a: 2}, {a: 'b'})\<close> renames the key
  \<^verbatim>\<open>constructor\<close>, which the map does not hold, to the text of the function the map
  inherits under that name. \<^verbatim>\<open>pick({id: 1}, ['id', 'constructor'])\<close> picks the
  inherited member. \<^verbatim>\<open>merge\<close> of a record that has \<^verbatim>\<open>__proto__\<close> as an own key
  (as \<^verbatim>\<open>JSON.parse\<close> makes them) leaves that key out, and \<open>clean\<close> keeps it.
\<close>

lemma test_inherited_members:
  "get test_host [HObj [(''id'', Num (Fin 1))]] (Ref 0) ''toString'' = Inr (Fun 105)"
  "get test_host [HObj [(''toString'', Undefined)]] (Ref 0) ''toString'' = Inr Undefined"
  "rename test_host (Ref 0) (Ref 1)
     [HObj [(''constructor'', Num (Fin 1)), (''a'', Num (Fin 2))], HObj [(''a'', Str ''b'')]]
   = (Inr (Ref 2),
      [HObj [(''constructor'', Num (Fin 1)), (''a'', Num (Fin 2))], HObj [(''a'', Str ''b'')],
       HObj [(''function Object() { [native code] }'', Num (Fin 1)), (''b'', Num (Fin 2))]])"
  "pick test_host (Ref 0) (Ref 1)
     [HObj [(''id'', Num (Fin 1))], HArr [Str ''id'', Str ''constructor'']]
   = (Inr (Ref 2),
      [HObj [(''id'', Num (Fin 1))], HArr [Str ''id'', Str ''constructor''],
       HObj [(''id'', Num (Fin 1)), (''constructor'', Fun 100)]])"
  by (simp_all add: run_defs nat_of_digits_def)

lemma test_proto_key:
  "merge [Ref 0] [HObj [(''__proto__'', Ref 1), (''a'', Num (Fin 1))], HObj [(''x'', Num (Fin 1))]]
   = (Inr (Ref 3),
      [HObj [(''__proto__'', Ref 1), (''a'', Num (Fin 1))], HObj [(''x'', Num (Fin 1))],
       HObj [(''a'', Num (Fin 1))], HObj [(''a'', Num (Fin 1))]])"
  "clean (Ref 0) [HObj [(''__proto__'', Ref 1), (''a'', Num (Fin 1))], HObj [(''x'', Num (Fin 1))]]
   = (Inr (Ref 2),
      [HObj [(''__proto__'', Ref 1), (''a'', Num (Fin 1))], HObj [(''x'', Num (Fin 1))],
       HObj [(''__proto__'', Ref 1), (''a'', Num (Fin 1))]])"
  by (simp_all add: run_defs nat_of_digits_def)

lemma order_int_keys:
  "fromEntries [(''b'', Num (Fin 1)), (''2'', Null), (''1'', Null), (''b'', Null)]
   = [(''1'', Null), (''2'', Null), (''b'', Null)]"
  by (simp add: run_defs nat_of_digits_def)

section \<open>The base contract\<close>

text \<open>
  C8. The \<open>transform\<close> of the base contract, called where no class overrides it, throws
  for every entity, every options value and every store; the error's message starts with
  the name of the class the call went to and tells the implementer to define a static
  \<^verbatim>\<open>transform\<close> method. Nothing is returned and no cell of the store changes.
\<close>

theorem transform_not_implemented:
  "\<exists>h'. this_transform H (Resource_class name None) resource options h =
          (Inl (Error (name @ ''.transform() must be implemented. Define a static transform method in your resource class.'')), h')
        \<and> prefix h h'"
  by (simp add: transform_def default_obj_def)

theorem transform_not_implemented_witness:
  "this_transform test_host (Resource_class ''Resource'' None) (Ref 0) Undefined [HObj []] =
     (Inl (Error ''Resource.transform() must be implemented. Define a static transform method in your resource class.''),
      [HObj [], HObj []])"
  using transform_not_implemented [of test_host "''Resource''" "Ref 0" Undefined "[HObj []]"]
  by (simp add: transform_def default_obj_def)



section \<open>Conditional inclusion\<close>




section \<open>The factory\<close>

text \<open>
  C1, as stated, fails on the code. A class reaches its transform as
  \<^verbatim>\<open>this.transform(resource, options)\<close>, which runs it with the class as receiver; the
  transformer that \<open>define(f)\<close> builds calls \<^verbatim>\<open>transformFn(item, options)\<close>, which
  runs it with none. For the static method
  \<^verbatim>\<open>transform(item) { return this.clean({ id: item.id }) }\<close> (function \<open>2\<close>) and the
  container \<^verbatim>\<open>{results: [{id: 1}], total: 1}\<close>, \<open>paginate\<close> of the class returns
  the envelope, and \<open>paginate\<close> of the defined transformer throws a \<^verbatim>\<open>TypeError\<close>.
\<close>

theorem define_paginate_receiver_counterexample:
  "this_paginate test_host (Resource_class ''UserResource'' (Some 2)) (Ref 0) Undefined
     [HObj [(''results'', Ref 1), (''total'', Num (Fin 1))], HArr [Ref 2],
      HObj [(''id'', Num (Fin 1))]]
   = (Inr (Ref 9),
      [HObj [(''results'', Ref 1), (''total'', Num (Fin 1))], HArr [Ref 2],
       HObj [(''id'', Num (Fin 1))],
       HObj [], HObj [], HObj [(''id'', Num (Fin 1))], HObj [(''id'', Num (Fin 1))],
       HArr [Ref 6],
       HObj [(''current_page'', Num (Fin 1)), (''per_page'', Num (Fin 15)),
             (''total'', Num (Fin 1)), (''last_page'', Num (Fin 1))],
       HObj [(''data'', Ref 7), (''meta'', Ref 8)]])
   \<and> define_paginate test_host (Fun 2) (Ref 0) Undefined
     [HObj [(''results'', Ref 1), (''total'', Num (Fin 1))], HArr [Ref 2],
      HObj [(''id'', Num (Fin 1))]]
   = (Inl TypeError,
      [HObj [(''results'', Ref 1), (''total'', Num (Fin 1))], HArr [Ref 2],
       HObj [(''id'', Num (Fin 1))], HObj [], HObj []])"
  by (simp add: define_paginate_def this_paginate_def this_collection_def collection_def
      paginate_def default_obj_def test_host_def test_call_def plain_host_def test_inherited_def
      object_members_def indexed_def on_value_def clean_def entries_def
      cell_def alloc_def define_collection_def fromEntries_def Let_def ceilings)

text \<open>
  C1, amended. For a function \<open>f\<close> that does the same whether it is called on a class
  as receiver or on none (an arrow function, or a function that does not read
  \<^verbatim>\<open>this\<close>), every result container, every options value and every store,
  \<open>paginate\<close> of the transformer that \<open>define(f)\<close> builds and \<open>paginate\<close> of a
  class that extends the base contract with \<open>f\<close> as its static \<^verbatim>\<open>transform\<close> do
  the same: they return the same value, or throw the same error, and leave the same store,
  so the data array and the meta record are the same.
\<close>

theorem define_paginate_same:
  assumes "\<forall>item opts hh.
             call_fn H f (Class_this (Resource_class name (Some f))) [item, opts] hh
               = call_fn H f No_this [item, opts] hh"
  shows "define_paginate H (Fun f) result options h =
           this_paginate H (Resource_class name (Some f)) result options h"
proof -
  obtain o' h' where d: "default_obj options h = (o', h')" by (cases "default_obj options h")
  have eq: "define_collection H (Fun f) = this_collection H (Resource_class name (Some f))"
    using assms by (intro define_collection_eq) simp
  have "paginate H (define_collection H (Fun f)) result o' h'
        = paginate H (define_collection H (Fun f)) result options h"
    using d default_obj_idem [OF d] by (simp add: paginate_def)
  then show ?thesis
    using d by (simp add: define_paginate_def this_paginate_def eq)
qed

theorem define_paginate_same_witness:
  "define_paginate test_host (Fun 0) (Ref 0) (Ref 4)
     [HObj [(''results'', Ref 1), (''total'', Num (Fin 50))], HArr [Ref 2, Ref 3],
      HObj [(''id'', Num (Fin 1))], HObj [(''id'', Num (Fin 2))],
      HObj [(''page'', Num (Fin 2)), (''perPage'', Num (Fin 10))]]
   = (Inr (Ref 10),
      [HObj [(''results'', Ref 1), (''total'', Num (Fin 50))], HArr [Ref 2, Ref 3],
       HObj [(''id'', Num (Fin 1))], HObj [(''id'', Num (Fin 2))],
       HObj [(''page'', Num (Fin 2)), (''perPage'', Num (Fin 10))],
       HObj [], HObj [(''id'', Num (Fin 1))], HObj [(''id'', Num (Fin 2))],
       HArr [Ref 6, Ref 7],
       HObj [(''current_page'', Num (Fin 2)), (''per_page'', Num (Fin 10)),
             (''total'', Num (Fin 50)), (''last_page'', Num (Fin 5))],
       HObj [(''data'', Ref 8), (''meta'', Ref 9)]])
   \<and> this_paginate test_host (Resource_class ''TestResource'' (Some 0)) (Ref 0) (Ref 4)
     [HObj [(''results'', Ref 1), (''total'', Num (Fin 50))], HArr [Ref 2, Ref 3],
      HObj [(''id'', Num (Fin 1))], HObj [(''id'', Num (Fin 2))],
      HObj [(''page'', Num (Fin 2)), (''perPage'', Num (Fin 10))]]
   = (Inr (Ref 10),
      [HObj [(''results'', Ref 1), (''total'', Num (Fin 50))], HArr [Ref 2, Ref 3],
       HObj [(''id'', Num (Fin 1))], HObj [(''id'', Num (Fin 2))],
       HObj [(''page'', Num (Fin 2)), (''perPage'', Num (Fin 10))],
       HObj [], HObj [(''id'', Num (Fin 1))], HObj [(''id'', Num (Fin 2))],
       HArr [Ref 6, Ref 7],
       HObj [(''current_page'', Num (Fin 2)), (''per_page'', Num (Fin 10)),
             (''total'', Num (Fin 50)), (''last_page'', Num (Fin 5))],
       HObj [(''data'', Ref 8), (''meta'', Ref 9)]])"
proof -
  let ?h = "[HObj [(''results'', Ref 1), (''total'', Num (Fin 50))], HArr [Ref 2, Ref 3],
        HObj [(''id'', Num (Fin 1))], HObj [(''id'', Num (Fin 2))],
        HObj [(''page'', Num (Fin 2)), (''perPage'', Num (Fin 10))]]"
  have same: "define_paginate test_host (Fun 0) (Ref 0) (Ref 4) ?h
                = this_paginate test_host (Resource_class ''TestResource'' (Some 0)) (Ref 0) (Ref 4) ?h"
    by (rule define_paginate_same) (simp add: test_host_def test_call_def)
  have run: "this_paginate test_host (Resource_class ''TestResource'' (Some 0)) (Ref 0) (Ref 4) ?h
   = (Inr (Ref 10),
      [HObj [(''results'', Ref 1), (''total'', Num (Fin 50))], HArr [Ref 2, Ref 3],
       HObj [(''id'', Num (Fin 1))], HObj [(''id'', Num (Fin 2))],
       HObj [(''page'', Num (Fin 2)), (''perPage'', Num (Fin 10))],
       HObj [], HObj [(''id'', Num (Fin 1))], HObj [(''id'', Num (Fin 2))],
       HArr [Ref 6, Ref 7],
       HObj [(''current_page'', Num (Fin 2)), (''per_page'', Num (Fin 10)),
             (''total'', Num (Fin 50)), (''last_page'', Num (Fin 5))],
       HObj [(''data'', Ref 8), (''meta'', Ref 9)]])"
    by (simp add: this_paginate_def this_collection_def collection_def
        paginate_def default_obj_def test_host_def test_call_def plain_host_def on_value_def test_inherited_def object_members_def
        cell_def alloc_def fromEntries_def Let_def ceilings)
  from same run show ?thesis by simp
qed



section \<open>The pagination envelope\<close>







section \<open>Shaping records\<close>

text \<open>
  C4, as stated, fails on the code for sequences: an array is an object to \<^verbatim>\<open>typeof\<close>,
  so \<open>clean\<close> does not return it unchanged but builds a record of its index entries.
  \<^verbatim>\<open>clean([1, undefined, 3])\<close> is the new record \<^verbatim>\<open>{"0": 1, "2": 3}\<close>.
\<close>

theorem clean_array_counterexample:
  "isArray [HArr [Num (Fin 1), Undefined, Num (Fin 3)]] (Ref 0)
   \<and> clean (Ref 0) [HArr [Num (Fin 1), Undefined, Num (Fin 3)]]
       = (Inr (Ref 1),
          [HArr [Num (Fin 1), Undefined, Num (Fin 3)],
           HObj [(''0'', Num (Fin 1)), (''2'', Num (Fin 3))]])
   \<and> clean (Ref 0) [HArr [Num (Fin 1), Undefined, Num (Fin 3)]]
       \<noteq> (Inr (Ref 0), [HArr [Num (Fin 1), Undefined, Num (Fin 3)]])"
  by (simp add: clean_def entries_def alloc_def cell_def index_entries_def upt_rec show_nat.simps
      fromEntries_def key_before_def index_of_key_def is_digit_def nat_of_digits_def)

text \<open>
  C4, amended. On a record, \<open>clean\<close> returns a new record, in a cell the store did not
  have, whose entries are the entries of the input whose value is not \<^verbatim>\<open>undefined\<close>,
  in the input's order and with their values as they are, \<^verbatim>\<open>null\<close> included; the
  input's cell is not touched. Every value that is not a reference to a record or an
  array (\<^verbatim>\<open>undefined\<close>, \<^verbatim>\<open>null\<close>, booleans, numbers, strings, functions) is
  returned unchanged. An array is not: the result is a new record whose entries are the
  array's index entries (keys \<^verbatim>\<open>"0"\<close>, \<^verbatim>\<open>"1"\<close>, ... with the elements as values), less
  those that hold \<^verbatim>\<open>undefined\<close>. (An array has at most \<open>2^32 - 1\<close> elements.)
\<close>

theorem clean_removes_undefined:
  "(cell h a = HObj ps \<and> js_ordered ps \<longrightarrow>
      clean (Ref a) h = (Inr (Ref (length h)), h @ [HObj (filter (\<lambda>(k, v). v \<noteq> Undefined) ps)]))
   \<and> ((\<forall>b. obj \<noteq> Ref b) \<longrightarrow> clean obj h = (Inr obj, h))
   \<and> (cell h a = HArr xs \<and> length xs \<le> 4294967295 \<longrightarrow>
      clean (Ref a) h
        = (Inr (Ref (length h)),
           h @ [HObj (filter (\<lambda>(k, v). v \<noteq> Undefined) (index_entries xs))]))"
proof (intro conjI impI)
  assume "cell h a = HObj ps \<and> js_ordered ps"
  then show "clean (Ref a) h
      = (Inr (Ref (length h)), h @ [HObj (filter (\<lambda>(k, v). v \<noteq> Undefined) ps)])"
    by (simp add: clean_def entries_def alloc_def fromEntries_ordered js_ordered_filter)
next
  assume "\<forall>b. obj \<noteq> Ref b"
  then have "\<not> truthy obj \<or> typeof obj \<noteq> ''object''" using typeof_object [of obj] by blast
  then show "clean obj h = (Inr obj, h)" by (auto simp: clean_def)
next
  assume "cell h a = HArr xs \<and> length xs \<le> 4294967295"
  then show "clean (Ref a) h
        = (Inr (Ref (length h)),
           h @ [HObj (filter (\<lambda>(k, v). v \<noteq> Undefined) (index_entries xs))])"
    by (simp add: clean_def entries_def alloc_def fromEntries_ordered js_ordered_filter
        js_ordered_index_entries)
qed

theorem clean_removes_undefined_witness:
  "js_ordered [(''a'', Num (Fin 1)), (''b'', Undefined), (''c'', Null)]
   \<and> clean (Ref 0) [HObj [(''a'', Num (Fin 1)), (''b'', Undefined), (''c'', Null)]]
       = (Inr (Ref 1),
          [HObj [(''a'', Num (Fin 1)), (''b'', Undefined), (''c'', Null)],
           HObj [(''a'', Num (Fin 1)), (''c'', Null)]])
   \<and> clean (Str ''abc'') [HObj [(''a'', Num (Fin 1)), (''b'', Undefined), (''c'', Null)]]
       = (Inr (Str ''abc''), [HObj [(''a'', Num (Fin 1)), (''b'', Undefined), (''c'', Null)]])"
  using clean_removes_undefined [of "[HObj [(''a'', Num (Fin 1)), (''b'', Undefined), (''c'', Null)]]"
      0 "[(''a'', Num (Fin 1)), (''b'', Undefined), (''c'', Null)]" "Str ''abc''"]
  by (simp add: cell_def js_ordered_def key_lt_def key_before_def index_of_key_def is_digit_def)




section \<open>The inputs after a call\<close>

text \<open>
  C9. No helper writes to a cell that the store had before the call: after \<open>clean\<close>,
  \<open>merge\<close>, \<open>pick\<close>, \<open>omit\<close>, \<open>rename\<close>, \<open>when\<close>, \<open>whenOrElse\<close>,
  \<open>whenLoaded\<close>, \<open>whenNotNull\<close>, \<open>wrap\<close> and \<open>paginate\<close> (of a class and
  of a defined transformer), whether they return or throw, the store is the store before
  the call followed by new cells, so every entity, record, array and options record that
  was passed in is what it was. The three assignments of the code, \<^verbatim>\<open>acc[field] = ...\<close>
  in \<open>pick\<close>, \<^verbatim>\<open>Object.assign({}, ...)\<close> in \<open>merge\<close> and \<^verbatim>\<open>response.meta = meta\<close>
  in \<open>wrap\<close>, write to a cell the helper has just made. The functions the caller
  passes in are the caller's: the statement is for callers' functions that do not write
  to existing cells either.
\<close>

theorem helpers_leave_inputs:
  "callbacks_allocate_only H \<Longrightarrow>
     prefix h (snd (clean obj h))
   \<and> prefix h (snd (merge objects h))
   \<and> prefix h (snd (pick H obj field_list h))
   \<and> prefix h (snd (omit obj field_list h))
   \<and> prefix h (snd (rename H obj keyMap h))
   \<and> prefix h (snd (when H condition val h))
   \<and> prefix h (snd (whenOrElse H condition val defaultValue h))
   \<and> prefix h (snd (whenLoaded H obj relation transformer h))
   \<and> prefix h (snd (whenNotNull H val transformer h))
   \<and> prefix h (snd (wrap data meta h))
   \<and> prefix h (snd (this_paginate H C result options h))
   \<and> prefix h (snd (define_paginate H fn result options h))"
  by (simp add: prefix_clean prefix_merge prefix_pick prefix_omit prefix_rename prefix_when
      prefix_whenOrElse prefix_whenLoaded prefix_whenNotNull prefix_wrap prefix_this_paginate
      prefix_define_paginate)

theorem helpers_leave_inputs_witness:
  "callbacks_allocate_only test_host
   \<and> pick test_host (Ref 0) (Ref 1)
        [HObj [(''a'', Num (Fin 1)), (''b'', Num (Fin 2)), (''c'', Undefined)],
         HArr [Str ''a'', Str ''c''], HObj [(''total'', Num (Fin 10))]]
      = (Inr (Ref 3),
         [HObj [(''a'', Num (Fin 1)), (''b'', Num (Fin 2)), (''c'', Undefined)],
          HArr [Str ''a'', Str ''c''], HObj [(''total'', Num (Fin 10))],
          HObj [(''a'', Num (Fin 1))]])
   \<and> wrap (Ref 0) (Ref 2)
        [HObj [(''a'', Num (Fin 1)), (''b'', Num (Fin 2)), (''c'', Undefined)],
         HArr [Str ''a'', Str ''c''], HObj [(''total'', Num (Fin 10))]]
      = (Inr (Ref 3),
         [HObj [(''a'', Num (Fin 1)), (''b'', Num (Fin 2)), (''c'', Undefined)],
          HArr [Str ''a'', Str ''c''], HObj [(''total'', Num (Fin 10))],
          HObj [(''data'', Ref 0), (''meta'', Ref 2)]])
   \<and> merge [Ref 0, Null, Ref 2]
        [HObj [(''a'', Num (Fin 1)), (''b'', Num (Fin 2)), (''c'', Undefined)],
         HArr [Str ''a'', Str ''c''], HObj [(''total'', Num (Fin 10))]]
      = (Inr (Ref 4),
         [HObj [(''a'', Num (Fin 1)), (''b'', Num (Fin 2)), (''c'', Undefined)],
          HArr [Str ''a'', Str ''c''], HObj [(''total'', Num (Fin 10))],
          HObj [(''a'', Num (Fin 1)), (''b'', Num (Fin 2)), (''c'', Undefined),
                (''total'', Num (Fin 10))],
          HObj [(''a'', Num (Fin 1)), (''b'', Num (Fin 2)), (''total'', Num (Fin 10))]])"
proof -
  let ?h = "[HObj [(''a'', Num (Fin 1)), (''b'', Num (Fin 2)), (''c'', Undefined)],
             HArr [Str ''a'', Str ''c''], HObj [(''total'', Num (Fin 10))]]"
  have kept: "prefix ?h (snd (pick test_host (Ref 0) (Ref 1) ?h))
            \<and> prefix ?h (snd (wrap (Ref 0) (Ref 2) ?h))
            \<and> prefix ?h (snd (merge [Ref 0, Null, Ref 2] ?h))"
    using helpers_leave_inputs [OF test_host_allocates_only, of ?h "Ref 0" "[Ref 0, Null, Ref 2]"
        "Ref 1" _ _ _ _ _ _ "Ref 0" "Ref 2"]
    by simp
  have run: ?thesis
    by (simp add: test_host_allocates_only pick_def wrap_def merge_def assign_def clean_def
        entries_def set_prop_def default_obj_def alloc_def cell_def property_key_def
        fromEntries_def key_before_def index_of_key_def is_digit_def Let_def)
  from kept show ?thesis by (rule_tac run)
qed

end
